theory Spec2Isabelle
  imports Complex_Main "HOL-Library.Word"
begin

section \<open>MoveDetect: the data model\<close>

text \<open>
  The library (src-lib/MoveDetect.cpp and MoveDetect.hpp) keeps a small map of thumbnails
  of earlier video frames and compares every new frame against them with a peak
  signal-to-noise score. This theory embeds \<open>psnr\<close>, \<open>Handler::clear\<close>,
  \<open>Handler::empty\<close> and both overloads of \<open>Handler::detect\<close> of the library, and
  \<open>Handler::clear\<close> and \<open>Handler::detect\<close> of its older generation (src/MoveDetect.cpp
  and MoveDetect.hpp).

  Conventions of the embedding:
  \<^item> a \<open>cv::Mat\<close> is a record of its dimensions, its number of channels and its samples
    (row-major, channels interleaved); only 8-bit unsigned matrices are modelled, so the
    OpenCV type of a matrix is determined by its number of channels;
  \<^item> \<open>size_t\<close> is a 64-bit word, so \<open>frame_index + 1\<close> and
    \<open>frame_index + key_frame_frequency\<close> wrap around as in the program;
  \<^item> a \<open>double\<close> is the real number it stands for. The product that gives the
    thumbnail size is rounded to the nearest binary64 number before it is truncated, as
    the program's multiplication does (\<open>to_double\<close> below), and so are the constants
    0.05 and 0.01. The squared differences summed by \<open>psnr\<close> are integers, which the
    program's floating point represents exactly; the logarithm of the score is the real
    one;
  \<^item> a C++ exception is a value: \<open>detect\<close> returns the error or the boolean together with
    the handler as the call leaves it, so that what a throwing call has already written
    to the handler is visible;
  \<^item> the OpenCV routines are not part of the repository: they are the parameter \<open>cv\<close> of
    \<open>detect\<close>, and each of them may throw (\<open>None\<close>);
  \<^item> the clock read by \<open>std::chrono::high_resolution_clock::now()\<close> is the parameter
    \<open>now\<close>.
\<close>

type_synonym size_t = "64 word"

record mat =
  rows :: int
  cols :: int
  channels :: nat
  data :: "8 word list"

record csize =
  width :: int
  height :: int

datatype line_types = FILLED | LINE_4 | LINE_8 | LINE_AA

datatype error = InvalidArgument string | CvException

text \<open>\<open>cv::Mat()\<close>, the default-constructed matrix: no data, type 0 (one 8-bit channel).\<close>

definition Mat :: mat where
  "Mat = \<lparr>rows = 0, cols = 0, channels = 1, data = []\<rparr>"

text \<open>\<open>cv::Mat(size, CV_8UC1, {0, 0, 0})\<close>: one channel, every sample 0.\<close>

definition Mat_zeros_8UC1 :: "csize \<Rightarrow> mat" where
  "Mat_zeros_8UC1 sz =
     \<lparr>rows = height sz, cols = width sz, channels = 1,
      data = replicate (nat (height sz * width sz)) 0\<rparr>"

definition total :: "mat \<Rightarrow> nat" where
  "total m = nat (rows m * cols m)"

definition mat_empty :: "mat \<Rightarrow> bool" where
  "mat_empty m \<longleftrightarrow> data m = [] \<or> total m = 0"

text \<open>\<open>m.type()\<close> for an 8-bit unsigned matrix: \<open>CV_8UC(n) = 8 * (n - 1)\<close>.\<close>

definition mat_type :: "mat \<Rightarrow> int" where
  "mat_type m = 8 * (int (channels m) - 1)"

definition mat_size :: "mat \<Rightarrow> csize" where
  "mat_size m = \<lparr>width = cols m, height = rows m\<rparr>"

definition area :: "csize \<Rightarrow> int" where
  "area sz = width sz * height sz"

text \<open>\<open>cv::Size::empty()\<close>.\<close>

definition size_empty :: "csize \<Rightarrow> bool" where
  "size_empty sz \<longleftrightarrow> width sz \<le> 0 \<or> height sz \<le> 0"

text \<open>The map \<open>ControlMap = std::map<size_t, cv::Mat>\<close>: an association list kept in
  ascending order of its keys, so that \<open>begin()\<close> is the head and the reverse iteration
  of \<open>detect\<close> is the reversed list.\<close>

type_synonym ControlMap = "(size_t \<times> mat) list"

record Handler =
  movement_detected :: bool
  transition_detected :: bool
  next_frame_index :: size_t
  next_key_frame :: size_t
  key_frame_frequency :: size_t
  number_of_control_frames :: size_t
  psnr_threshold :: real
  most_recent_psnr_score :: real
  thumbnail_ratio :: real
  thumbnail_size :: csize
  frame_index_with_movement :: size_t
  movement_last_detected :: nat
  control :: ControlMap
  mask_enabled :: bool
  mask_mat :: mat
  line_type :: line_types
  contours_enabled :: bool
  contours_size :: int
  bbox_enabled :: bool
  bbox_size :: int
  output_mat :: mat

text \<open>The OpenCV routines \<open>detect\<close> calls, each \<open>None\<close> where OpenCV throws:
  \<^item> \<open>resize_area src dsize\<close> is \<open>cv::resize(src, dst, dsize, 0, 0, cv::INTER_AREA)\<close>;
  \<^item> \<open>motion_mask val thumbnail size\<close> is the pipeline of lines 178 to 198
    (absdiff, cubic resize to \<open>size\<close>, grey scale, Otsu threshold, dilate, erode);
  \<^item> \<open>draw_contours mask out thickness lt\<close> is \<open>cv::findContours\<close> on the mask followed
    by \<open>cv::polylines\<close> of every contour onto \<open>out\<close> (the mask itself is left as it is,
    as \<open>cv::findContours\<close> does since OpenCV 3.2);
  \<^item> \<open>draw_bbox mask out thickness lt\<close> is \<open>cv::rectangle\<close> of
    \<open>cv::boundingRect(mask)\<close> onto \<open>out\<close>.\<close>

record cv_ops =
  resize_area :: "mat \<Rightarrow> csize \<Rightarrow> mat option"
  motion_mask :: "mat \<Rightarrow> mat \<Rightarrow> csize \<Rightarrow> mat option"
  draw_contours :: "mat \<Rightarrow> mat \<Rightarrow> int \<Rightarrow> line_types \<Rightarrow> mat option"
  draw_bbox :: "mat \<Rightarrow> mat \<Rightarrow> int \<Rightarrow> line_types \<Rightarrow> mat option"

section \<open>psnr\<close>

text \<open>\<open>cv::absdiff\<close> on 8-bit samples.\<close>

definition absdiff :: "8 word list \<Rightarrow> 8 word list \<Rightarrow> 8 word list" where
  "absdiff xs ys = map2 (\<lambda>a b. if a \<le> b then b - a else a - b) xs ys"

text \<open>\<open>convertTo(CV_32F)\<close> followed by \<open>s1.mul(s1)\<close>: the square of every sample.\<close>

definition squares :: "8 word list \<Rightarrow> nat list" where
  "squares xs = map (\<lambda>d. unat d * unat d) xs"

text \<open>\<open>cv::sum\<close>: entry \<open>k\<close> of the returned \<open>cv::Scalar\<close> is the sum of the samples of
  channel \<open>k\<close>, and 0 for a channel the matrix does not have.\<close>

fun channel_sum :: "nat \<Rightarrow> nat \<Rightarrow> nat \<Rightarrow> nat list \<Rightarrow> nat" where
  "channel_sum cn k i [] = 0"
| "channel_sum cn k i (x # xs) =
     (if i mod cn = k then x else 0) + channel_sum cn k (Suc i) xs"

definition sse_of :: "mat \<Rightarrow> mat \<Rightarrow> nat" where
  "sse_of src dst =
     (let s1 = squares (absdiff (data src) (data dst)); cn = channels src
      in channel_sum cn 0 0 s1 + channel_sum cn 1 0 s1 + channel_sum cn 2 0 s1)"

definition psnr :: "mat \<Rightarrow> mat \<Rightarrow> error + real" where
  "psnr src dst =
     (if mat_empty src \<or> mat_empty dst
      then Inl (InvalidArgument ''cannot calculate psnr using empty image'')
      else if mat_type src \<noteq> mat_type dst \<or> cols src \<noteq> cols dst \<or> rows src \<noteq> rows dst
      then Inl (InvalidArgument ''src and dst images cannot be compared'')
      else if 4 < channels src then Inl CvException
      else
        let sse = real (sse_of src dst) in
        if sse \<le> 1 / 10 ^ 10 then Inr 0
        else
          let mse = sse / real (channels src * total src)
          in Inr (10 * log 10 ((255 * 255) / mse)))"

section \<open>Binary64 rounding\<close>

text \<open>\<open>to_double x\<close> is the IEEE 754 binary64 number nearest to the real \<open>x\<close>, ties to
  the even significand: what a \<open>double\<close> holds after the literal or the exact result
  \<open>x\<close> is stored in it. With \<open>e\<close> the exponent of \<open>x\<close> (\<open>2 ^ e \<le> \<bar>x\<bar> < 2 ^ (e + 1)\<close>, and
  at least -1022, below which the numbers are subnormal), the binary64 numbers around
  \<open>x\<close> are the multiples of \<open>2 ^ (e - 52)\<close>. Overflow to infinity (from \<open>2 ^ 1024\<close>) is
  not modelled: the products of \<open>detect\<close> are below \<open>2 ^ 31\<close>.\<close>

definition pow2 :: "int \<Rightarrow> real" where
  "pow2 k = (if 0 \<le> k then 2 ^ nat k else 1 / 2 ^ nat (- k))"

text \<open>The number of binary digits of a natural number.\<close>

function bit_length :: "nat \<Rightarrow> nat" where
  "bit_length n = (if n = 0 then 0 else Suc (bit_length (n div 2)))"
  by pat_completeness auto
termination
  by (relation "measure id") auto

text \<open>The exponent of a positive real: from the digits of its integer part when it is
  at least 1, and of the integer part of its inverse otherwise.\<close>

definition exponent_of :: "real \<Rightarrow> int" where
  "exponent_of x =
     (if 1 \<le> x then int (bit_length (nat \<lfloor>x\<rfloor>)) - 1
      else - int (bit_length (nat (\<lceil>1 / x\<rceil> - 1))))"

definition round_half_even :: "real \<Rightarrow> int" where
  "round_half_even q =
     (let f = \<lfloor>q\<rfloor>; d = q - real_of_int f
      in if d < 1 / 2 then f else if 1 / 2 < d then f + 1 else if even f then f else f + 1)"

definition to_double :: "real \<Rightarrow> real" where
  "to_double x =
     (if x = 0 then 0
      else
        let e = max (exponent_of \<bar>x\<bar>) (- 1022); u = pow2 (e - 52)
        in sgn x * real_of_int (round_half_even (\<bar>x\<bar> / u)) * u)"

section \<open>Handler\<close>

definition clear :: "Handler \<Rightarrow> Handler" where
  "clear h = h
     \<lparr>control := [],
      movement_detected := False,
      transition_detected := False,
      next_frame_index := 0,
      next_key_frame := 0,
      key_frame_frequency := 10,
      number_of_control_frames := 4,
      psnr_threshold := 32,
      most_recent_psnr_score := 0,
      thumbnail_ratio := to_double (5 / 100),
      thumbnail_size := \<lparr>width = 0, height = 0\<rparr>,
      frame_index_with_movement := 0,
      movement_last_detected := 0,
      mask_enabled := False,
      mask_mat := Mat,
      line_type := LINE_4,
      contours_enabled := False,
      contours_size := 1,
      bbox_enabled := False,
      bbox_size := 1,
      output_mat := Mat\<rparr>"

text \<open>The constructor \<open>Handler::Handler()\<close> calls \<open>clear()\<close>, which assigns every member.\<close>

definition Handler_new :: Handler where
  "Handler_new = clear
     \<lparr>movement_detected = False, transition_detected = False, next_frame_index = 0,
      next_key_frame = 0, key_frame_frequency = 0, number_of_control_frames = 0,
      psnr_threshold = 0, most_recent_psnr_score = 0, thumbnail_ratio = 0,
      thumbnail_size = \<lparr>width = 0, height = 0\<rparr>, frame_index_with_movement = 0,
      movement_last_detected = 0, control = [], mask_enabled = False, mask_mat = Mat,
      line_type = LINE_4, contours_enabled = False, contours_size = 0,
      bbox_enabled = False, bbox_size = 0, output_mat = Mat\<rparr>"

definition handler_empty :: "Handler \<Rightarrow> bool" where
  "handler_empty h \<longleftrightarrow> control h = []"

section \<open>detect\<close>

text \<open>\<open>std::clamp(v, lo, hi)\<close>.\<close>

definition clamp :: "real \<Rightarrow> real \<Rightarrow> real \<Rightarrow> real" where
  "clamp v lo hi = (if v < lo then lo else if hi < v then hi else v)"

text \<open>The conversion of a \<open>double\<close> to \<open>int\<close> truncates towards zero.\<close>

definition double_to_int :: "real \<Rightarrow> int" where
  "double_to_int x = (if 0 \<le> x then \<lfloor>x\<rfloor> else \<lceil>x\<rceil>)"

text \<open>Lines 140 to 146: the thumbnail size is worked out from the frame while the stored
  size has an area of at most 1. The member \<open>thumbnail_ratio\<close> is a \<open>double\<close>: what is
  read from it is the binary64 number of the real it holds (the number itself when the
  program stored it; the compiler's rounding of the literal when a caller assigned one,
  as in \<open>thumbnail_ratio = 0.29\<close>). \<open>image.cols * thumbnail_ratio\<close> converts the \<open>int\<close> to
  \<open>double\<close> exactly, multiplies in binary64, and the assignment to the \<open>int\<close> member
  truncates.\<close>

definition thumbnail_setup :: "mat \<Rightarrow> Handler \<Rightarrow> Handler" where
  "thumbnail_setup img h =
     (if area (thumbnail_size h) \<le> 1 then
        let r = clamp (to_double (thumbnail_ratio h)) (to_double (1 / 100)) 1
        in h\<lparr>thumbnail_ratio := r,
             thumbnail_size :=
               \<lparr>width = double_to_int (to_double (real_of_int (cols img) * r)),
                height = double_to_int (to_double (real_of_int (rows img) * r))\<rparr>\<rparr>
      else h)"

text \<open>Lines 148 to 152.\<close>

definition force_mask :: "Handler \<Rightarrow> Handler" where
  "force_mask h =
     (if contours_enabled h \<or> bbox_enabled h then h\<lparr>mask_enabled := True\<rparr> else h)"

text \<open>Lines 164 to 205: the loop over the control thumbnails, here given from the most
  recent one (\<open>rbegin\<close>) to the oldest. It stops at the first thumbnail whose score is
  below the threshold, and at the first exception.\<close>

fun compare_loop ::
  "cv_ops \<Rightarrow> nat \<Rightarrow> size_t \<Rightarrow> mat \<Rightarrow> mat \<Rightarrow> ControlMap \<Rightarrow> Handler \<Rightarrow> error option \<times> Handler"
where
  "compare_loop cv now frame_index img thumbnail [] h = (None, h)"
| "compare_loop cv now frame_index img thumbnail ((key, val) # rest) h =
     (case psnr val thumbnail of
        Inl e \<Rightarrow> (Some e, h)
      | Inr score \<Rightarrow>
          let h1 = h\<lparr>most_recent_psnr_score := score\<rparr> in
          if most_recent_psnr_score h1 < psnr_threshold h1 then
            let h2 = h1\<lparr>movement_detected := True,
                       movement_last_detected := now,
                       frame_index_with_movement := frame_index\<rparr>
            in if mask_enabled h2 then
                 (case motion_mask cv val thumbnail (mat_size img) of
                    None \<Rightarrow> (Some CvException, h2)
                  | Some eroded \<Rightarrow> (None, h2\<lparr>mask_mat := eroded\<rparr>))
               else (None, h2)
          else compare_loop cv now frame_index img thumbnail rest h1)"

text \<open>Lines 209 to 242: the blank mask and the annotated copy of the frame.\<close>

definition annotate :: "cv_ops \<Rightarrow> mat \<Rightarrow> Handler \<Rightarrow> error option \<times> Handler" where
  "annotate cv img h =
     (if mask_enabled h then
        let h1 = (if mat_empty (mask_mat h) \<or>
                     (transition_detected h \<and> movement_detected h = False)
                  then h\<lparr>mask_mat := Mat_zeros_8UC1 (mat_size img)\<rparr> else h)
        in if contours_enabled h1 \<or> bbox_enabled h1 then
             let h2 = h1\<lparr>output_mat := img\<rparr> in
             (case (if contours_enabled h2
                    then draw_contours cv (mask_mat h2) (output_mat h2) (contours_size h2) (line_type h2)
                    else Some (output_mat h2)) of
                None \<Rightarrow> (Some CvException, h2)
              | Some out1 \<Rightarrow>
                  let h3 = h2\<lparr>output_mat := out1\<rparr> in
                  (case (if bbox_enabled h3
                         then draw_bbox cv (mask_mat h3) (output_mat h3) (bbox_size h3) (line_type h3)
                         else Some (output_mat h3)) of
                     None \<Rightarrow> (Some CvException, h3)
                   | Some out2 \<Rightarrow> (None, h3\<lparr>output_mat := out2\<rparr>)))
           else (None, h1)
      else (None, h))"

text \<open>\<open>control[frame_index] = thumbnail\<close> on the ordered map: the entry of an existing
  key is overwritten, a new key is put at its place in the order.\<close>

fun map_assign :: "size_t \<Rightarrow> mat \<Rightarrow> ControlMap \<Rightarrow> ControlMap" where
  "map_assign k v [] = [(k, v)]"
| "map_assign k v ((k', v') # xs) =
     (if k < k' then (k, v) # (k', v') # xs
      else if k = k' then (k, v) # xs
      else (k', v') # map_assign k v xs)"

text \<open>Lines 248 to 252: \<open>while (control.size() > n) control.erase(control.begin())\<close>.\<close>

fun erase_excess :: "nat \<Rightarrow> ControlMap \<Rightarrow> ControlMap" where
  "erase_excess n [] = []"
| "erase_excess n (x # xs) = (if n < length (x # xs) then erase_excess n xs else x # xs)"

text \<open>Lines 245 to 254: the key frame.\<close>

definition is_key_frame :: "size_t \<Rightarrow> Handler \<Rightarrow> bool" where
  "is_key_frame frame_index h \<longleftrightarrow>
     next_key_frame h \<le> frame_index \<or> length (control h) < unat (number_of_control_frames h)"

definition retain :: "size_t \<Rightarrow> mat \<Rightarrow> Handler \<Rightarrow> Handler" where
  "retain frame_index thumbnail h =
     (if is_key_frame frame_index h then
        h\<lparr>control := erase_excess (unat (number_of_control_frames h))
                        (map_assign frame_index thumbnail (control h)),
          next_key_frame := frame_index + key_frame_frequency h\<rparr>
      else h)"

definition detect ::
  "cv_ops \<Rightarrow> nat \<Rightarrow> size_t \<Rightarrow> mat \<Rightarrow> Handler \<Rightarrow> (error + bool) \<times> Handler"
where
  "detect cv now frame_index img h =
     (if mat_empty img
      then (Inl (InvalidArgument ''cannot detect using an empty image''), h)
      else
        let h1 = force_mask (thumbnail_setup img h) in
        case resize_area cv img (thumbnail_size h1) of
          None \<Rightarrow> (Inl CvException, h1)
        | Some thumbnail \<Rightarrow>
            let previous_movement_detected = movement_detected h1;
                h2 = h1\<lparr>movement_detected := False\<rparr>
            in case compare_loop cv now frame_index img thumbnail (rev (control h2)) h2 of
                 (Some e, h3) \<Rightarrow> (Inl e, h3)
               | (None, h3) \<Rightarrow>
                   let h4 = h3\<lparr>transition_detected :=
                                 (previous_movement_detected \<noteq> movement_detected h3)\<rparr>
                   in case annotate cv img h4 of
                        (Some e, h5) \<Rightarrow> (Inl e, h5)
                      | (None, h5) \<Rightarrow>
                          let h6 = retain frame_index thumbnail h5;
                              h7 = h6\<lparr>next_frame_index := frame_index + 1\<rparr>
                          in (Inr (movement_detected h7), h7))"

text \<open>The overload \<open>detect(cv::Mat & next_image)\<close>.\<close>

definition detect_next :: "cv_ops \<Rightarrow> nat \<Rightarrow> mat \<Rightarrow> Handler \<Rightarrow> (error + bool) \<times> Handler" where
  "detect_next cv now next_image h = detect cv now (next_frame_index h) next_image h"

text \<open>A sequence of calls on one handler, each with its clock reading, frame index and
  frame; the trace lists what each call returned and the handler it left. A call that
  throws leaves the handler to the next call as it is, as a caller that catches the
  exception would find it.\<close>

fun detect_trace ::
  "cv_ops \<Rightarrow> (nat \<times> size_t \<times> mat) list \<Rightarrow> Handler \<Rightarrow> ((error + bool) \<times> Handler) list"
where
  "detect_trace cv [] h = []"
| "detect_trace cv ((now, frame_index, img) # calls) h =
     (let r = detect cv now frame_index img h in r # detect_trace cv calls (snd r))"

section \<open>The older detect\<close>

text \<open>The repository holds an older generation of the library in \<open>src/MoveDetect.cpp\<close>
  and \<open>src/MoveDetect.hpp\<close>. Its \<open>psnr\<close> is the one above; its \<open>detect\<close> has no mask and
  no bootstrap of the control map.\<close>










section \<open>Concrete frames and a concrete OpenCV\<close>

text \<open>A frame of one colour: \<open>r\<close> rows and \<open>c\<close> columns of the pixel \<open>px\<close>, which has one
  sample for each channel.\<close>

definition solid :: "int \<Rightarrow> int \<Rightarrow> 8 word list \<Rightarrow> mat" where
  "solid r c px =
     \<lparr>rows = r, cols = c, channels = length px, data = concat (replicate (nat (r * c)) px)\<rparr>"

text \<open>To run \<open>detect\<close> on concrete frames the OpenCV routines need values. The ones below
  keep what OpenCV documents of each routine and the engine relies on: \<open>cv::resize\<close> throws
  for an empty source or an empty target size and otherwise returns a matrix of the
  target size and of the type of the source; the colour conversion of the mask pipeline
  throws unless the thumbnails have 3 or 4 channels, and the mask has one channel and the
  size of the frame; \<open>cv::findContours\<close> and \<open>cv::boundingRect\<close> throw unless the mask has
  one channel. The resampling takes the source pixel at the scaled position; for a frame
  of one colour, and for a target size equal to the source size, every resampling filter
  returns the same matrix, and the closed theorems of this theory run \<open>detect\<close> on such
  frames only. The mask marks the whole frame when the two thumbnails differ, and the
  drawing routines leave the copy of the frame as it is; no theorem depends on either.\<close>

definition pixel_at :: "mat \<Rightarrow> nat \<Rightarrow> nat \<Rightarrow> 8 word list" where
  "pixel_at m y x =
     take (channels m) (drop ((y * nat (cols m) + x) * channels m) (data m))"

definition sample_resize :: "mat \<Rightarrow> csize \<Rightarrow> mat option" where
  "sample_resize src dsize =
     (if mat_empty src \<or> size_empty dsize then None
      else Some
        \<lparr>rows = height dsize, cols = width dsize, channels = channels src,
         data = concat (map (\<lambda>y. concat (map (\<lambda>x.
                   pixel_at src (y * nat (rows src) div nat (height dsize))
                                (x * nat (cols src) div nat (width dsize)))
                   [0..<nat (width dsize)]))
                 [0..<nat (height dsize)])\<rparr>)"

definition whole_frame_mask :: "mat \<Rightarrow> mat \<Rightarrow> csize \<Rightarrow> mat option" where
  "whole_frame_mask val thumbnail sz =
     (if channels thumbnail = 3 \<or> channels thumbnail = 4 then
        Some \<lparr>rows = height sz, cols = width sz, channels = 1,
              data = replicate (nat (height sz * width sz))
                       (if \<exists>d \<in> set (absdiff (data val) (data thumbnail)). d \<noteq> 0
                        then 255 else 0)\<rparr>
      else None)"

definition no_drawing :: "mat \<Rightarrow> mat \<Rightarrow> int \<Rightarrow> line_types \<Rightarrow> mat option" where
  "no_drawing m out thickness lt = (if channels m = 1 then Some out else None)"

definition cv_sampling :: cv_ops where
  "cv_sampling =
     \<lparr>resize_area = sample_resize, motion_mask = whole_frame_mask,
      draw_contours = no_drawing, draw_bbox = no_drawing\<rparr>"

section \<open>Sequences of calls and the frames used to run them\<close>

text \<open>Whether a call returned (rather than threw), and the boolean it returned.\<close>

definition returned :: "(error + bool) \<times> Handler \<Rightarrow> bool" where
  "returned r = (case fst r of Inl e \<Rightarrow> False | Inr b \<Rightarrow> True)"

definition result :: "(error + bool) \<times> Handler \<Rightarrow> bool" where
  "result r = (case fst r of Inl e \<Rightarrow> False | Inr b \<Rightarrow> b)"

text \<open>A caller that assigns \<open>contours_enabled\<close> and \<open>bbox_enabled\<close> before each call; the
  list holds the handler each call leaves.\<close>

fun flag_trace ::
  "cv_ops \<Rightarrow> (bool \<times> bool \<times> nat \<times> size_t \<times> mat) list \<Rightarrow> Handler \<Rightarrow> Handler list"
where
  "flag_trace cv [] h = []"
| "flag_trace cv ((c, b, now, frame_index, img) # calls) h =
     (let h' = snd (detect cv now frame_index img
                     (h\<lparr>contours_enabled := c, bbox_enabled := b\<rparr>))
      in h' # flag_trace cv calls h')"

text \<open>Two frames of one colour, 20 by 20 and 40 by 40 pixels of three channels, and the
  thumbnails of one pixel that the default ratio 0.05 makes of the first.\<close>

definition frame_a :: mat where "frame_a = solid 20 20 [10, 20, 30]"
definition frame_big :: mat where "frame_big = solid 40 40 [10, 20, 30]"
definition thumb_a :: mat where "thumb_a = solid 1 1 [10, 20, 30]"
definition thumb_b :: mat where "thumb_b = solid 1 1 [10, 20, 31]"

definition five_calls :: "(nat \<times> size_t \<times> mat) list" where
  "five_calls =
     [(0, 0, frame_a), (1, 1, frame_a), (2, 2, frame_a), (3, 3, frame_a), (4, 4, frame_a)]"

text \<open>The handler after each of the five calls of \<open>five_calls\<close> on a new handler.\<close>

definition after_1 :: Handler where
  "after_1 = Handler_new
     \<lparr>thumbnail_size := \<lparr>width = 1, height = 1\<rparr>,
      control := [(0, thumb_a)], next_key_frame := 10, next_frame_index := 1\<rparr>"

definition after_2 :: Handler where
  "after_2 = after_1
     \<lparr>movement_detected := True, transition_detected := True,
      movement_last_detected := 1, frame_index_with_movement := 1,
      control := [(0, thumb_a), (1, thumb_a)], next_key_frame := 11, next_frame_index := 2\<rparr>"

definition after_3 :: Handler where
  "after_3 = after_2
     \<lparr>transition_detected := False,
      movement_last_detected := 2, frame_index_with_movement := 2,
      control := [(0, thumb_a), (1, thumb_a), (2, thumb_a)],
      next_key_frame := 12, next_frame_index := 3\<rparr>"

definition after_4 :: Handler where
  "after_4 = after_3
     \<lparr>movement_last_detected := 3, frame_index_with_movement := 3,
      control := [(0, thumb_a), (1, thumb_a), (2, thumb_a), (3, thumb_a)],
      next_key_frame := 13, next_frame_index := 4\<rparr>"

definition after_5 :: Handler where
  "after_5 = after_4
     \<lparr>movement_last_detected := 4, frame_index_with_movement := 4, next_frame_index := 5\<rparr>"

text \<open>A frame of a slightly different colour, a frame of other proportions, the
  thumbnail of 2 by 2 pixels that the default ratio makes of the 40 by 40 frame, and the
  handler a new handler becomes by a first call on that frame.\<close>

definition frame_b :: mat where "frame_b = solid 20 20 [10, 20, 31]"
definition frame_wide :: mat where "frame_wide = solid 40 80 [10, 20, 30]"
definition thumb_big :: mat where "thumb_big = solid 2 2 [10, 20, 30]"

definition big_1 :: Handler where
  "big_1 = Handler_new
     \<lparr>thumbnail_size := \<lparr>width = 2, height = 2\<rparr>,
      control := [(0, thumb_big)], next_key_frame := 10, next_frame_index := 1\<rparr>"




section \<open>psnr of a matrix with itself\<close>

lemma channel_sum_zeros: "channel_sum cn k i (replicate n 0) = 0"
  by (induction n arbitrary: i) auto

lemma absdiff_same: "absdiff xs xs = replicate (length xs) 0"
  by (induction xs) (auto simp: absdiff_def)

lemma sse_same: "sse_of m m = 0"
  by (simp add: sse_of_def squares_def absdiff_same channel_sum_zeros)

lemma psnr_same: "\<not> mat_empty m \<Longrightarrow> channels m \<le> 4 \<Longrightarrow> psnr m m = Inr 0"
  by (simp add: psnr_def sse_same)


section \<open>What the stages of detect leave alone\<close>

lemma compare_loop_keeps:
  "compare_loop cv now fi img th xs h = (e, h') \<Longrightarrow>
     control h' = control h \<and> next_frame_index h' = next_frame_index h \<and>
     next_key_frame h' = next_key_frame h \<and> key_frame_frequency h' = key_frame_frequency h \<and>
     number_of_control_frames h' = number_of_control_frames h \<and>
     psnr_threshold h' = psnr_threshold h \<and> thumbnail_ratio h' = thumbnail_ratio h \<and>
     thumbnail_size h' = thumbnail_size h \<and> mask_enabled h' = mask_enabled h \<and>
     contours_enabled h' = contours_enabled h \<and> bbox_enabled h' = bbox_enabled h \<and>
     transition_detected h' = transition_detected h \<and> output_mat h' = output_mat h"
proof (induction xs arbitrary: h)
  case Nil
  then show ?case by simp
next
  case (Cons a xs)
  obtain k v where a: "a = (k, v)" by (cases a)
  show ?case
  proof (cases "psnr v th")
    case (Inl e')
    with Cons.prems a show ?thesis by simp
  next
    case (Inr sc)
    show ?thesis
    proof (cases "sc < psnr_threshold h")
      case True
      with Cons.prems a Inr show ?thesis
        by (auto simp: Let_def split: if_splits option.splits)
    next
      case False
      with Cons.prems a Inr
      have "compare_loop cv now fi img th xs (h\<lparr>most_recent_psnr_score := sc\<rparr>) = (e, h')"
        by simp
      from Cons.IH[OF this] show ?thesis by simp
    qed
  qed
qed

lemma annotate_keeps:
  "annotate cv img h = (e, h') \<Longrightarrow>
     control h' = control h \<and> next_frame_index h' = next_frame_index h \<and>
     next_key_frame h' = next_key_frame h \<and> key_frame_frequency h' = key_frame_frequency h \<and>
     number_of_control_frames h' = number_of_control_frames h \<and>
     psnr_threshold h' = psnr_threshold h \<and> thumbnail_ratio h' = thumbnail_ratio h \<and>
     thumbnail_size h' = thumbnail_size h \<and> mask_enabled h' = mask_enabled h \<and>
     contours_enabled h' = contours_enabled h \<and> bbox_enabled h' = bbox_enabled h \<and>
     transition_detected h' = transition_detected h \<and> movement_detected h' = movement_detected h"
  by (auto simp: annotate_def Let_def split: if_splits option.splits)

lemma setup_keeps:
  "control (force_mask (thumbnail_setup img h)) = control h"
  "movement_detected (force_mask (thumbnail_setup img h)) = movement_detected h"
  "next_frame_index (force_mask (thumbnail_setup img h)) = next_frame_index h"
  "next_key_frame (force_mask (thumbnail_setup img h)) = next_key_frame h"
  "key_frame_frequency (force_mask (thumbnail_setup img h)) = key_frame_frequency h"
  "number_of_control_frames (force_mask (thumbnail_setup img h)) = number_of_control_frames h"
  "psnr_threshold (force_mask (thumbnail_setup img h)) = psnr_threshold h"
  "contours_enabled (force_mask (thumbnail_setup img h)) = contours_enabled h"
  "bbox_enabled (force_mask (thumbnail_setup img h)) = bbox_enabled h"
  "mask_enabled (force_mask (thumbnail_setup img h)) =
     (mask_enabled h \<or> contours_enabled h \<or> bbox_enabled h)"
  "thumbnail_size (force_mask (thumbnail_setup img h)) = thumbnail_size (thumbnail_setup img h)"
  "thumbnail_ratio (force_mask (thumbnail_setup img h)) = thumbnail_ratio (thumbnail_setup img h)"
  by (simp_all add: force_mask_def thumbnail_setup_def Let_def)

lemma detect_InrE:
  assumes "detect cv now fi img h = (Inr b, h')"
  obtains th h3 h5 where
    "\<not> mat_empty img"
    "resize_area cv img (thumbnail_size (thumbnail_setup img h)) = Some th"
    "compare_loop cv now fi img th (rev (control h))
       ((force_mask (thumbnail_setup img h))\<lparr>movement_detected := False\<rparr>) = (None, h3)"
    "annotate cv img (h3\<lparr>transition_detected := (movement_detected h \<noteq> movement_detected h3)\<rparr>)
       = (None, h5)"
    "h' = (retain fi th h5)\<lparr>next_frame_index := fi + 1\<rparr>"
    "b = movement_detected h5"
proof -
  let ?h1 = "force_mask (thumbnail_setup img h)"
  from assms have ne: "\<not> mat_empty img"
    by (auto simp: detect_def)
  from assms ne obtain th where th: "resize_area cv img (thumbnail_size ?h1) = Some th"
    by (cases "resize_area cv img (thumbnail_size ?h1)") (auto simp: detect_def Let_def)
  obtain e3 h3 where c: "compare_loop cv now fi img th (rev (control h))
       (?h1\<lparr>movement_detected := False\<rparr>) = (e3, h3)"
    by (cases "compare_loop cv now fi img th (rev (control h)) (?h1\<lparr>movement_detected := False\<rparr>)")
  from assms ne th c have e3: "e3 = None"
    by (cases e3) (auto simp: detect_def Let_def setup_keeps)
  obtain e5 h5 where a: "annotate cv img
       (h3\<lparr>transition_detected := (movement_detected h \<noteq> movement_detected h3)\<rparr>) = (e5, h5)"
    by (cases "annotate cv img (h3\<lparr>transition_detected := (movement_detected h \<noteq> movement_detected h3)\<rparr>)")
  from assms ne th c e3 a have e5: "e5 = None"
    by (cases e5) (auto simp: detect_def Let_def setup_keeps)
  from assms ne th c e3 a e5
  have "h' = (retain fi th h5)\<lparr>next_frame_index := fi + 1\<rparr>"
    and "b = movement_detected (retain fi th h5)"
    by (auto simp: detect_def Let_def setup_keeps)
  moreover have "movement_detected (retain fi th h5) = movement_detected h5"
    by (simp add: retain_def)
  ultimately show ?thesis
    using that[of th h3 h5] ne th c e3 a e5 by (simp add: setup_keeps)
qed

lemma detect_Inl_keeps:
  assumes "detect cv now fi img h = (Inl e, h')"
  shows "control h' = control h \<and> next_frame_index h' = next_frame_index h \<and>
         next_key_frame h' = next_key_frame h \<and>
         number_of_control_frames h' = number_of_control_frames h \<and>
         key_frame_frequency h' = key_frame_frequency h"
proof (cases "mat_empty img")
  case True
  with assms show ?thesis by (simp add: detect_def)
next
  case ne: False
  let ?h1 = "force_mask (thumbnail_setup img h)"
  show ?thesis
  proof (cases "resize_area cv img (thumbnail_size ?h1)")
    case None
    with assms ne have "h' = ?h1" by (simp add: detect_def Let_def)
    then show ?thesis by (simp add: setup_keeps)
  next
    case (Some th)
    obtain e3 h3 where c: "compare_loop cv now fi img th (rev (control h))
         (?h1\<lparr>movement_detected := False\<rparr>) = (e3, h3)"
      by (cases "compare_loop cv now fi img th (rev (control h)) (?h1\<lparr>movement_detected := False\<rparr>)")
    note k3 = compare_loop_keeps[OF c]
    show ?thesis
    proof (cases e3)
      case (Some e')
      with assms ne \<open>resize_area cv img (thumbnail_size ?h1) = Some th\<close> c have "h' = h3"
        by (simp add: detect_def Let_def setup_keeps)
      with k3 show ?thesis by (simp add: setup_keeps)
    next
      case None
      obtain e5 h5 where a: "annotate cv img
         (h3\<lparr>transition_detected := (movement_detected h \<noteq> movement_detected h3)\<rparr>) = (e5, h5)"
        by (cases "annotate cv img (h3\<lparr>transition_detected := (movement_detected h \<noteq> movement_detected h3)\<rparr>)")
      note k5 = annotate_keeps[OF a]
      from assms ne \<open>resize_area cv img (thumbnail_size ?h1) = Some th\<close> c None a
      have "h' = h5"
        by (cases e5) (auto simp: detect_def Let_def setup_keeps)
      with k3 k5 show ?thesis by (simp add: setup_keeps)
    qed
  qed
qed

lemma retain_keeps:
  "number_of_control_frames (retain fi th h) = number_of_control_frames h"
  "key_frame_frequency (retain fi th h) = key_frame_frequency h"
  "movement_detected (retain fi th h) = movement_detected h"
  "transition_detected (retain fi th h) = transition_detected h"
  "mask_enabled (retain fi th h) = mask_enabled h"
  "mask_mat (retain fi th h) = mask_mat h"
  "thumbnail_size (retain fi th h) = thumbnail_size h"
  "thumbnail_ratio (retain fi th h) = thumbnail_ratio h"
  by (simp_all add: retain_def)

lemma detect_Inr_summary:
  assumes "detect cv now fi img h = (Inr b, h')"
  shows "\<exists>th. \<not> mat_empty img \<and>
           resize_area cv img (thumbnail_size (thumbnail_setup img h)) = Some th \<and>
           control h' = (if is_key_frame fi h
                         then erase_excess (unat (number_of_control_frames h))
                                (map_assign fi th (control h))
                         else control h) \<and>
           next_key_frame h' = (if is_key_frame fi h then fi + key_frame_frequency h
                                else next_key_frame h) \<and>
           number_of_control_frames h' = number_of_control_frames h \<and>
           key_frame_frequency h' = key_frame_frequency h \<and>
           next_frame_index h' = fi + 1 \<and>
           movement_detected h' = b \<and>
           transition_detected h' = (movement_detected h \<noteq> b) \<and>
           mask_enabled h' = (mask_enabled h \<or> contours_enabled h \<or> bbox_enabled h) \<and>
           thumbnail_size h' = thumbnail_size (thumbnail_setup img h) \<and>
           thumbnail_ratio h' = thumbnail_ratio (thumbnail_setup img h)"
proof -
  from assms obtain th h3 h5 where
    ne: "\<not> mat_empty img" and
    th: "resize_area cv img (thumbnail_size (thumbnail_setup img h)) = Some th" and
    c: "compare_loop cv now fi img th (rev (control h))
       ((force_mask (thumbnail_setup img h))\<lparr>movement_detected := False\<rparr>) = (None, h3)" and
    a: "annotate cv img (h3\<lparr>transition_detected := (movement_detected h \<noteq> movement_detected h3)\<rparr>)
       = (None, h5)" and
    h': "h' = (retain fi th h5)\<lparr>next_frame_index := fi + 1\<rparr>" and
    b: "b = movement_detected h5"
    by (rule detect_InrE)
  note k3 = compare_loop_keeps[OF c]
  note k5 = annotate_keeps[OF a]
  have kf: "is_key_frame fi h5 = is_key_frame fi h"
    using k3 k5 by (simp add: is_key_frame_def setup_keeps)
  have ctl: "control h5 = control h" "number_of_control_frames h5 = number_of_control_frames h"
    "key_frame_frequency h5 = key_frame_frequency h" "next_key_frame h5 = next_key_frame h"
    using k3 k5 by (simp_all add: setup_keeps)
  have 1: "control h' = (if is_key_frame fi h
                         then erase_excess (unat (number_of_control_frames h))
                                (map_assign fi th (control h))
                         else control h)"
    using h' kf ctl by (simp add: retain_def)
  have 2: "next_key_frame h' = (if is_key_frame fi h then fi + key_frame_frequency h
                                else next_key_frame h)"
    using h' kf ctl by (simp add: retain_def)
  have 3: "transition_detected h' = (movement_detected h \<noteq> b)"
    using h' b k5 by (simp add: retain_keeps)
  have 4: "mask_enabled h' = (mask_enabled h \<or> contours_enabled h \<or> bbox_enabled h)"
    using h' k3 k5 by (simp add: retain_keeps setup_keeps)
  have 5: "thumbnail_size h' = thumbnail_size (thumbnail_setup img h)"
     "thumbnail_ratio h' = thumbnail_ratio (thumbnail_setup img h)"
    using h' k3 k5 by (simp_all add: retain_keeps setup_keeps)
  have 6: "number_of_control_frames h' = number_of_control_frames h"
     "key_frame_frequency h' = key_frame_frequency h" "next_frame_index h' = fi + 1"
     "movement_detected h' = b"
    using h' ctl b by (simp_all add: retain_keeps)
  from ne th 1 2 3 4 5 6 show ?thesis by blast
qed

lemma erase_excess_drop: "erase_excess n xs = drop (length xs - n) xs"
  by (induction xs) (auto simp: Suc_diff_le)


lemma map_assign_keys: "set (map fst (map_assign k v xs)) = insert k (set (map fst xs))"
proof (induction xs)
  case Nil
  then show ?case by simp
next
  case (Cons a xs)
  obtain k' v' where a: "a = (k', v')" by (cases a)
  have "set (map fst (map_assign k v ((k', v') # xs))) = insert k (insert k' (set (map fst xs)))"
    using Cons.IH by (cases "k < k'"; cases "k = k'") (simp_all add: insert_commute)
  with a show ?case by simp
qed

lemma map_assign_sorted:
  "sorted_wrt (<) (map fst xs) \<Longrightarrow> sorted_wrt (<) (map fst (map_assign k v xs))"
proof (induction xs)
  case Nil
  then show ?case by simp
next
  case (Cons a xs)
  obtain k' v' where a: "a = (k', v')" by (cases a)
  have "\<forall>x \<in> set (map fst (map_assign k v xs)). k' < x" if "k' < k"
    unfolding map_assign_keys using Cons.prems a that by auto
  with Cons a show ?case by auto
qed

lemma map_assign_length:
  "length (map_assign k v xs) \<le> Suc (length xs)"
  by (induction xs) auto


section \<open>Running detect on frames of one colour\<close>

lemma drop_concat_replicate:
  "i \<le> n \<Longrightarrow> drop (i * length px) (concat (replicate n px)) = concat (replicate (n - i) px)"
proof (induction i arbitrary: n)
  case 0
  then show ?case by simp
next
  case (Suc i)
  then obtain m where n: "n = Suc m" by (cases n) auto
  with Suc.prems have "i \<le> m" by simp
  from Suc.IH[OF this] n show ?case by (simp add: add.commute drop_drop[symmetric] del: drop_drop)
qed

lemma pixel_at_solid:
  assumes "y < nat r" "x < nat c"
  shows "pixel_at (solid r c px) y x = px"
proof -
  have "y * nat c + x < nat r * nat c"
  proof -
    have "y * nat c + x < y * nat c + nat c" using assms by simp
    also have "\<dots> = Suc y * nat c" by simp
    also have "\<dots> \<le> nat r * nat c" using assms by (intro mult_le_mono1) simp
    finally show ?thesis .
  qed
  moreover have "nat (r * c) = nat r * nat c"
    using assms by (simp add: nat_mult_distrib)
  ultimately obtain m where m: "nat (r * c) - (y * nat c + x) = Suc m"
    and le: "y * nat c + x \<le> nat (r * c)"
    by (cases "nat (r * c) - (y * nat c + x)") auto
  show ?thesis
    unfolding pixel_at_def solid_def
    by (simp add: drop_concat_replicate[OF le] m)
qed

lemma concat_replicate_mult:
  "concat (replicate h (concat (replicate w px))) = concat (replicate (h * w) px)"
  by (induction h) (simp_all add: replicate_add)

lemma solid_not_empty: "0 < r \<Longrightarrow> 0 < c \<Longrightarrow> px \<noteq> [] \<Longrightarrow> \<not> mat_empty (solid r c px)"
proof -
  assume a: "0 < r" "0 < c" "px \<noteq> []"
  then have "0 < r * c" by simp
  then obtain m where "nat (r * c) = Suc m" by (cases "nat (r * c)") auto
  with a show ?thesis by (simp add: mat_empty_def solid_def total_def)
qed

lemma sample_resize_solid:
  assumes "0 < r" "0 < c" "px \<noteq> []" "0 < w" "0 < hh"
  shows "sample_resize (solid r c px) \<lparr>width = w, height = hh\<rparr> = Some (solid hh w px)"
proof -
  have sc: "y * nat r div nat hh < nat r" if "y < nat hh" for y
  proof -
    have "y * nat r < nat hh * nat r" using that assms by simp
    then show ?thesis using assms by (simp add: less_mult_imp_div_less)
  qed
  have sc2: "x * nat c div nat w < nat c" if "x < nat w" for x
  proof -
    have "x * nat c < nat w * nat c" using that assms by simp
    then show ?thesis using assms by (simp add: less_mult_imp_div_less)
  qed
  have row: "concat (map (\<lambda>x. pixel_at (solid r c px) (y * nat r div nat hh) (x * nat c div nat w))
                  [0..<nat w]) = concat (replicate (nat w) px)" if "y < nat hh" for y
  proof -
    have "map (\<lambda>x. pixel_at (solid r c px) (y * nat r div nat hh) (x * nat c div nat w)) [0..<nat w]
          = map (\<lambda>x. px) [0..<nat w]"
      by (rule map_cong) (simp_all add: pixel_at_solid sc[OF that] sc2)
    then show ?thesis by (simp add: map_replicate_const)
  qed
  have "map (\<lambda>y. concat (map (\<lambda>x. pixel_at (solid r c px) (y * nat r div nat hh) (x * nat c div nat w))
                  [0..<nat w])) [0..<nat hh] = map (\<lambda>y. concat (replicate (nat w) px)) [0..<nat hh]"
    by (rule map_cong) (simp_all add: row)
  then have "concat (map (\<lambda>y. concat (map (\<lambda>x. pixel_at (solid r c px) (y * nat r div nat hh) (x * nat c div nat w))
                  [0..<nat w])) [0..<nat hh]) = concat (replicate (nat (hh * w)) px)"
    using assms by (simp add: map_replicate_const concat_replicate_mult nat_mult_distrib)
  moreover have "rows (solid r c px) = r" "cols (solid r c px) = c" "channels (solid r c px) = length px"
    by (simp_all add: solid_def)
  ultimately show ?thesis
    using solid_not_empty[OF assms(1-3)] assms
    by (simp add: sample_resize_def size_empty_def solid_def)
qed

lemma psnr_solid_same:
  "0 < r \<Longrightarrow> 0 < c \<Longrightarrow> px \<noteq> [] \<Longrightarrow> length px \<le> 4 \<Longrightarrow> psnr (solid r c px) (solid r c px) = Inr 0"
  by (rule psnr_same) (simp_all add: solid_not_empty, simp add: solid_def)

lemma solid_sel:
  "rows (solid r c px) = r" "cols (solid r c px) = c" "channels (solid r c px) = length px"
  by (simp_all add: solid_def)

lemma detect_trace_Cons:
  "detect_trace cv ((now, fi, img) # calls) h =
     detect cv now fi img h # detect_trace cv calls (snd (detect cv now fi img h))"
  by (simp add: Let_def)

declare bit_length.simps [simp del]

lemma bit_length_numeral:
  "bit_length 0 = 0"
  "bit_length 1 = 1"
  "bit_length (Suc 0) = Suc 0"
  "bit_length (numeral k) = Suc (bit_length (numeral k div 2))"
  by (simp_all add: bit_length.simps[of 0] bit_length.simps[of 1] bit_length.simps[of "numeral k"]
      bit_length.simps[of "Suc 0"])

lemmas double_defs = to_double_def exponent_of_def round_half_even_def pow2_def
  bit_length_numeral

lemma to_double_tenth: "to_double (1 / 10) = 3602879701896397 / 36028797018963968"
  by (simp add: double_defs Let_def)

lemma thumbnail_width_800_at_029:
  "double_to_int (to_double (800 * to_double (29 / 100))) = 231"
  by (simp add: double_defs double_to_int_def Let_def)

lemma thumbnail_width_1000_at_03:
  "double_to_int (to_double (1000 * to_double (3 / 10))) = 300"
  by (simp add: double_defs double_to_int_def Let_def)

lemma thumbnail_setup_800_by_600_at_029:
  "thumbnail_size (thumbnail_setup (solid 600 800 [10, 20, 30])
                    (Handler_new\<lparr>thumbnail_ratio := 29 / 100\<rparr>)) =
     \<lparr>width = 231, height = 174\<rparr>"
  by (simp add: thumbnail_setup_def Handler_new_def clear_def area_def clamp_def solid_def
      double_defs double_to_int_def Let_def)



lemmas run_defs = double_defs detect_def thumbnail_setup_def force_mask_def annotate_def retain_def
  is_key_frame_def Handler_new_def clear_def area_def clamp_def double_to_int_def cv_sampling_def
  sample_resize_solid psnr_solid_same solid_not_empty solid_sel Let_def
  frame_a_def frame_big_def thumb_a_def thumb_b_def

lemma step_1: "detect cv_sampling 0 0 frame_a Handler_new = (Inr False, after_1)"
  by (simp add: run_defs after_1_def)

lemma step_2: "detect cv_sampling 1 1 frame_a after_1 = (Inr True, after_2)"
  by (simp add: run_defs after_1_def after_2_def)

lemma step_3: "detect cv_sampling 2 2 frame_a after_2 = (Inr True, after_3)"
  by (simp add: run_defs after_1_def after_2_def after_3_def)

lemma step_4: "detect cv_sampling 3 3 frame_a after_3 = (Inr True, after_4)"
  by (simp add: run_defs after_1_def after_2_def after_3_def after_4_def)

lemma step_5: "detect cv_sampling 4 4 frame_a after_4 = (Inr True, after_5)"
  by (simp add: run_defs after_1_def after_2_def after_3_def after_4_def after_5_def)

lemma five: "detect_trace cv_sampling five_calls Handler_new
   = [(Inr False, after_1), (Inr True, after_2), (Inr True, after_3), (Inr True, after_4), (Inr True, after_5)]"
  by (simp only: five_calls_def detect_trace_Cons detect_trace.simps(1) step_1 step_2 step_3 step_4 step_5 snd_conv)


section \<open>The size of the control map along a sequence of calls\<close>

lemma returned_Inr [simp]: "returned (Inr b, h) = True" "returned (Inl e, h) = False"
  by (simp_all add: returned_def)

lemma result_simps [simp]: "result (Inr b, h) = b" "result (Inl e, h) = False"
  by (simp_all add: result_def)


lemma all_le_nth_Cons:
  "(\<forall>j \<le> Suc n. P ((x # xs) ! j)) \<longleftrightarrow> P x \<and> (\<forall>j \<le> n. P (xs ! j))"
proof
  assume a: "\<forall>j \<le> Suc n. P ((x # xs) ! j)"
  from a[rule_format, of 0] have "P x" by simp
  moreover have "\<forall>j \<le> n. P (xs ! j)"
  proof (intro allI impI)
    fix j assume "j \<le> n"
    with a[rule_format, of "Suc j"] show "P (xs ! j)" by simp
  qed
  ultimately show "P x \<and> (\<forall>j \<le> n. P (xs ! j))" by simp
next
  assume b: "P x \<and> (\<forall>j \<le> n. P (xs ! j))"
  show "\<forall>j \<le> Suc n. P ((x # xs) ! j)"
  proof (intro allI impI)
    fix j assume "j \<le> Suc n"
    then show "P ((x # xs) ! j)" using b by (cases j) auto
  qed
qed


lemma all_le_nth: "n < length xs \<Longrightarrow> \<forall>x \<in> set xs. P x \<Longrightarrow> \<forall>j \<le> n. P (xs ! j)"
  by simp

section \<open>The movement flags along a sequence of calls\<close>

lemma trace_transition:
  assumes "\<forall>j \<le> i. returned (detect_trace cv calls h ! j)" and "i < length calls"
  shows "movement_detected (snd (detect_trace cv calls h ! i)) = result (detect_trace cv calls h ! i) \<and>
         transition_detected (snd (detect_trace cv calls h ! i)) =
           (result (detect_trace cv calls h ! i) \<noteq>
            (if i = 0 then movement_detected h else result (detect_trace cv calls h ! (i - 1))))"
  using assms
proof (induction calls arbitrary: h i)
  case Nil
  then show ?case by simp
next
  case (Cons c calls)
  obtain now fi img where c: "c = (now, fi, img)" by (cases c)
  obtain r h' where d: "detect cv now fi img h = (r, h')" by (cases "detect cv now fi img h")
  have tr: "detect_trace cv (c # calls) h = (r, h') # detect_trace cv calls h'"
    using c d by (simp add: Let_def)
  from Cons.prems(1)[rule_format, of 0] tr have "returned (r, h')" by simp
  then obtain b where r: "r = Inr b" by (cases r) simp_all
  from detect_Inr_summary[OF d[unfolded r]]
  have m: "movement_detected h' = b" and t: "transition_detected h' = (movement_detected h \<noteq> b)"
    by auto
  show ?case
  proof (cases i)
    case 0
    with tr r m t show ?thesis by auto
  next
    case (Suc i')
    from Cons.prems(1) have "\<forall>j \<le> i'. returned (detect_trace cv calls h' ! j)"
      unfolding tr Suc all_le_nth_Cons by simp
    moreover have "i' < length calls" using Cons.prems(2) Suc by simp
    ultimately have IH: "movement_detected (snd (detect_trace cv calls h' ! i')) =
         result (detect_trace cv calls h' ! i') \<and>
         transition_detected (snd (detect_trace cv calls h' ! i')) =
           (result (detect_trace cv calls h' ! i') \<noteq>
            (if i' = 0 then movement_detected h' else result (detect_trace cv calls h' ! (i' - 1))))"
      by (rule Cons.IH)
    show ?thesis
    proof (cases i')
      case 0
      with IH tr Suc r m show ?thesis by auto
    next
      case (Suc i'')
      with IH tr \<open>i = Suc i'\<close> show ?thesis by auto
    qed
  qed
qed

lemma annotate_blank_mask:
  assumes "annotate cv img h = (None, h')" "mask_enabled h" "transition_detected h"
    "\<not> movement_detected h"
  shows "mask_mat h' = Mat_zeros_8UC1 (mat_size img)"
  using assms by (auto simp: annotate_def Let_def split: if_splits option.splits)

section \<open>The exceptions of detect\<close>

lemma compare_loop_errors:
  "compare_loop cv now fi img th xs h = (Some e, h') \<Longrightarrow>
     (\<exists>v \<in> set (map snd xs). psnr v th = Inl e) \<or> e = CvException"
proof (induction xs arbitrary: h)
  case Nil
  then show ?case by simp
next
  case (Cons a xs)
  obtain k v where a: "a = (k, v)" by (cases a)
  show ?case
  proof (cases "psnr v th")
    case (Inl e')
    with Cons.prems a show ?thesis by auto
  next
    case (Inr sc)
    show ?thesis
    proof (cases "sc < psnr_threshold h")
      case True
      with Cons.prems a Inr show ?thesis
        by (auto simp: Let_def split: if_splits option.splits)
    next
      case False
      with Cons.prems a Inr
      have "compare_loop cv now fi img th xs (h\<lparr>most_recent_psnr_score := sc\<rparr>) = (Some e, h')"
        by simp
      from Cons.IH[OF this] show ?thesis by auto
    qed
  qed
qed

lemma annotate_errors: "annotate cv img h = (Some e, h') \<Longrightarrow> e = CvException"
  by (auto simp: annotate_def Let_def split: if_splits option.splits)

lemma psnr_errors:
  "psnr a b = Inl e \<Longrightarrow>
     e = InvalidArgument ''cannot calculate psnr using empty image'' \<or>
     e = InvalidArgument ''src and dst images cannot be compared'' \<or> e = CvException"
  by (auto simp: psnr_def Let_def split: if_splits)

text \<open>What a call on a frame that is not empty has done to the handler, whether it
  returns or throws.\<close>

lemma detect_nonempty:
  assumes d: "detect cv now fi img h = (r, h')" and ne: "\<not> mat_empty img"
  shows "mask_enabled h' = (mask_enabled h \<or> contours_enabled h \<or> bbox_enabled h)"
    and "thumbnail_size h' = thumbnail_size (thumbnail_setup img h)"
    and "thumbnail_ratio h' = thumbnail_ratio (thumbnail_setup img h)"
    and "number_of_control_frames h' = number_of_control_frames h"
    and "r \<noteq> Inl (InvalidArgument ''cannot detect using an empty image'')"
    and "r = Inl (InvalidArgument ''src and dst images cannot be compared'') \<Longrightarrow>
         \<exists>th. resize_area cv img (thumbnail_size (thumbnail_setup img h)) = Some th \<and>
           (\<exists>v \<in> set (map snd (control h)).
              psnr v th = Inl (InvalidArgument ''src and dst images cannot be compared''))"
proof -
  let ?h1 = "force_mask (thumbnail_setup img h)"
  let ?P = "mask_enabled h' = (mask_enabled h \<or> contours_enabled h \<or> bbox_enabled h) \<and>
    thumbnail_size h' = thumbnail_size (thumbnail_setup img h) \<and>
    thumbnail_ratio h' = thumbnail_ratio (thumbnail_setup img h) \<and>
    number_of_control_frames h' = number_of_control_frames h \<and>
    r \<noteq> Inl (InvalidArgument ''cannot detect using an empty image'') \<and>
    (r = Inl (InvalidArgument ''src and dst images cannot be compared'') \<longrightarrow>
         (\<exists>th. resize_area cv img (thumbnail_size (thumbnail_setup img h)) = Some th \<and>
           (\<exists>v \<in> set (map snd (control h)).
              psnr v th = Inl (InvalidArgument ''src and dst images cannot be compared''))))"
  have ?P
  proof (cases r)
    case (Inr b)
    from detect_Inr_summary[OF d[unfolded Inr]] Inr show ?thesis by auto
  next
    case (Inl e)
    show ?thesis
    proof (cases "resize_area cv img (thumbnail_size ?h1)")
      case None
      with d ne have "h' = ?h1" "r = Inl CvException" by (simp_all add: detect_def Let_def)
      then show ?thesis by (simp add: setup_keeps)
    next
      case (Some th)
      obtain e3 h3 where c: "compare_loop cv now fi img th (rev (control h))
           (?h1\<lparr>movement_detected := False\<rparr>) = (e3, h3)"
        by (cases "compare_loop cv now fi img th (rev (control h)) (?h1\<lparr>movement_detected := False\<rparr>)")
      note k3 = compare_loop_keeps[OF c]
      show ?thesis
      proof (cases e3)
        case (Some e')
        with d ne \<open>resize_area cv img (thumbnail_size ?h1) = Some th\<close> c
        have h': "h' = h3" and r: "r = Inl e'"
          by (simp_all add: detect_def Let_def setup_keeps)
        from compare_loop_errors[OF c[unfolded Some]]
        have e': "(\<exists>v \<in> set (map snd (control h)). psnr v th = Inl e') \<or> e' = CvException"
          by simp
        then have "e' \<noteq> InvalidArgument ''cannot detect using an empty image''"
          using psnr_errors by fastforce
        moreover have "\<exists>v \<in> set (map snd (control h)).
              psnr v th = Inl (InvalidArgument ''src and dst images cannot be compared'')"
          if "e' = InvalidArgument ''src and dst images cannot be compared''"
          using e' that by auto
        ultimately show ?thesis
          using h' r k3 \<open>resize_area cv img (thumbnail_size ?h1) = Some th\<close>
          by (simp add: setup_keeps)
      next
        case None
        obtain e5 h5 where a: "annotate cv img
           (h3\<lparr>transition_detected := (movement_detected h \<noteq> movement_detected h3)\<rparr>) = (e5, h5)"
          by (cases "annotate cv img (h3\<lparr>transition_detected := (movement_detected h \<noteq> movement_detected h3)\<rparr>)")
        note k5 = annotate_keeps[OF a]
        from d Inl ne \<open>resize_area cv img (thumbnail_size ?h1) = Some th\<close> c None a
        obtain e'' where "e5 = Some e''" "h' = h5" "r = Inl e''"
          by (cases e5) (auto simp: detect_def Let_def setup_keeps)
        moreover from this a have "e'' = CvException" using annotate_errors by blast
        ultimately show ?thesis using k3 k5 by (simp add: setup_keeps)
      qed
    qed
  qed
  then show "mask_enabled h' = (mask_enabled h \<or> contours_enabled h \<or> bbox_enabled h)"
    and "thumbnail_size h' = thumbnail_size (thumbnail_setup img h)"
    and "thumbnail_ratio h' = thumbnail_ratio (thumbnail_setup img h)"
    and "number_of_control_frames h' = number_of_control_frames h"
    and "r \<noteq> Inl (InvalidArgument ''cannot detect using an empty image'')"
    and "r = Inl (InvalidArgument ''src and dst images cannot be compared'') \<Longrightarrow>
         \<exists>th. resize_area cv img (thumbnail_size (thumbnail_setup img h)) = Some th \<and>
           (\<exists>v \<in> set (map snd (control h)).
              psnr v th = Inl (InvalidArgument ''src and dst images cannot be compared''))"
    by blast+
qed

lemma detect_empty:
  "mat_empty img \<Longrightarrow>
   detect cv now fi img h = (Inl (InvalidArgument ''cannot detect using an empty image''), h)"
  by (simp add: detect_def)

lemma detect_mask_enabled_mono:
  "mask_enabled h \<Longrightarrow> mask_enabled (snd (detect cv now fi img h))"
proof (cases "mat_empty img")
  case True
  assume "mask_enabled h"
  with True show ?thesis by (simp add: detect_empty)
next
  case False
  assume "mask_enabled h"
  with detect_nonempty(1)[OF surjective_pairing False, of cv now fi h] show ?thesis by simp
qed

lemma flag_trace_mask_enabled:
  "mask_enabled h \<Longrightarrow> \<forall>h' \<in> set (flag_trace cv calls h). mask_enabled h'"
proof (induction calls arbitrary: h)
  case Nil
  then show ?case by simp
next
  case (Cons a calls)
  obtain c b now fi img where a: "a = (c, b, now, fi, img)" by (cases a)
  let ?h' = "snd (detect cv now fi img (h\<lparr>contours_enabled := c, bbox_enabled := b\<rparr>))"
  have "mask_enabled ?h'" using Cons.prems by (intro detect_mask_enabled_mono) simp
  with Cons.IH[of ?h'] a show ?case by (simp add: Let_def)
qed


lemma psnr_mismatch:
  "psnr a b = Inl (InvalidArgument ''src and dst images cannot be compared'') \<Longrightarrow>
     mat_type a \<noteq> mat_type b \<or> cols a \<noteq> cols b \<or> rows a \<noteq> rows b"
  by (auto simp: psnr_def Let_def split: if_splits)

lemma map_assign_set: "set (map_assign k v xs) \<subseteq> insert (k, v) (set xs)"
  by (induction xs) (auto split: if_splits)

section \<open>Runs of detect on the concrete frames\<close>

lemma score_above_threshold: "\<not> 10 * log 10 195075 < (32::real)"
proof -
  have a: "log 10 10000 \<le> log 10 (195075::real)"
    by (subst log_le_cancel_iff) simp_all
  have b: "log 10 (10000::real) = 4"
    using log_nat_power[of 10 10 4] by simp
  from a b have "4 \<le> log 10 (195075::real)" by linarith
  then show ?thesis by linarith
qed

lemma psnr_a_b: "psnr (solid 1 1 [10, 20, 30]) (solid 1 1 [10, 20, 31]) = Inr (10 * log 10 195075)"
  by (simp add: psnr_def solid_def mat_empty_def total_def
        mat_type_def sse_of_def absdiff_def squares_def)

lemma psnr_a_big:
  "psnr (solid 1 1 [10, 20, 30]) (solid 2 2 [10, 20, 30]) =
     Inl (InvalidArgument ''src and dst images cannot be compared'')"
  by (simp add: psnr_def solid_not_empty solid_sel)

lemma mat_empty_Mat: "mat_empty Mat"
  by (simp add: mat_empty_def Mat_def)

lemmas run_defs2 = mat_empty_Mat run_defs frame_b_def frame_wide_def thumb_big_def psnr_a_b psnr_a_big
  score_above_threshold

lemma step_13:
  "fst (detect cv_sampling 5 13 frame_a after_4) = Inr True"
  "control (snd (detect cv_sampling 5 13 frame_a after_4)) =
     [(1, thumb_a), (2, thumb_a), (3, thumb_a), (13, thumb_a)]"
  "number_of_control_frames (snd (detect cv_sampling 5 13 frame_a after_4)) = 4"
  by (simp_all add: run_defs2 after_1_def after_2_def after_3_def after_4_def)

lemma step_quiet:
  "fst (detect cv_sampling 2 2 frame_b (after_2\<lparr>mask_enabled := True\<rparr>)) = Inr False"
  "mask_mat (snd (detect cv_sampling 2 2 frame_b (after_2\<lparr>mask_enabled := True\<rparr>))) =
     \<lparr>rows = 20, cols = 20, channels = 1, data = replicate 400 0\<rparr>"
  by (simp_all add: run_defs2 after_1_def after_2_def Mat_zeros_8UC1_def mat_size_def)

lemma step_mismatch_3:
  "fst (detect cv_sampling 2 2 frame_big after_2) =
     Inl (InvalidArgument ''src and dst images cannot be compared'')"
  "movement_detected (snd (detect cv_sampling 2 2 frame_big after_2)) = False"
  "thumbnail_size (snd (detect cv_sampling 2 2 frame_big after_2)) = \<lparr>width = 2, height = 2\<rparr>"
  by (simp_all add: run_defs2 after_1_def after_2_def)

lemma step_mismatch_2:
  "fst (detect cv_sampling 1 1 frame_big after_1) =
     Inl (InvalidArgument ''src and dst images cannot be compared'')"
  by (simp_all add: run_defs2 after_1_def)



lemma step_big_1: "detect cv_sampling 0 0 frame_big Handler_new = (Inr False, big_1)"
  by (simp add: run_defs2 big_1_def)

lemma step_big_2:
  "fst (detect cv_sampling 1 1 frame_wide big_1) = Inr True"
  "thumbnail_size (snd (detect cv_sampling 1 1 frame_wide big_1)) = \<lparr>width = 2, height = 2\<rparr>"
  by (simp_all add: run_defs2 big_1_def)

lemma step_contours:
  "fst (detect cv_sampling 0 0 frame_a (Handler_new\<lparr>contours_enabled := True\<rparr>)) = Inr False"
  by (simp_all add: run_defs2 Mat_zeros_8UC1_def mat_size_def no_drawing_def)


lemma detect_pair: "fst (detect cv now fi img h) = r \<Longrightarrow>
  detect cv now fi img h = (r, snd (detect cv now fi img h))"
  by (metis prod.collapse)

lemma sample_resize_contract:
  "sample_resize src dsize = Some t \<Longrightarrow> mat_size t = dsize \<and> channels t = channels src"
  by (auto simp: sample_resize_def mat_size_def split: if_splits)


section \<open>The control map of the older detect\<close>









section \<open>What a call that throws an invalid-argument error has written\<close>

lemma compare_loop_invalid_argument:
  "compare_loop cv now fi img th xs h = (Some e, h') \<Longrightarrow> e \<noteq> CvException \<Longrightarrow>
     h' = h\<lparr>most_recent_psnr_score := most_recent_psnr_score h'\<rparr>"
proof (induction xs arbitrary: h)
  case Nil
  then show ?case by simp
next
  case (Cons a xs)
  obtain k v where a: "a = (k, v)" by (cases a)
  show ?case
  proof (cases "psnr v th")
    case (Inl e')
    with Cons.prems a show ?thesis by simp
  next
    case (Inr sc)
    show ?thesis
    proof (cases "sc < psnr_threshold h")
      case True
      with Cons.prems a Inr show ?thesis
        by (auto simp: Let_def split: if_splits option.splits)
    next
      case False
      with Cons.prems a Inr
      have "compare_loop cv now fi img th xs (h\<lparr>most_recent_psnr_score := sc\<rparr>) = (Some e, h')"
        by simp
      from Cons.IH[OF this Cons.prems(2)] show ?thesis by simp
    qed
  qed
qed

lemma setup_shape:
  "force_mask (thumbnail_setup img h) = h
     \<lparr>thumbnail_ratio := thumbnail_ratio (force_mask (thumbnail_setup img h)),
      thumbnail_size := thumbnail_size (force_mask (thumbnail_setup img h)),
      mask_enabled := mask_enabled (force_mask (thumbnail_setup img h))\<rparr>"
  by (simp add: force_mask_def thumbnail_setup_def Let_def)

section \<open>The claims\<close>

text \<open>
  Claim C1. The claim: for two frames of the same dimensions, type and content, \<open>psnr\<close>
  returns the value that stands for the greatest similarity. The program returns 0 for
  every matrix compared with itself (here: of at most 4 channels, the limit of
  \<open>cv::sum\<close>). On the scale of \<open>psnr\<close> (the header: values above 30 mean very similar
  frames, and the closer to zero, the more changes) that is the value of the greatest
  difference. The instance below adds that two thumbnails which differ by 1 in one
  sample score \<open>10 * log 10 195075\<close>, about 52.9, so the identical pair scores below
  them, and below the default threshold 32.
\<close>

theorem psnr_identical_is_zero:
  assumes "\<not> mat_empty m" and "channels m \<le> 4"
  shows "psnr m m = Inr 0"
proof -
  have "absdiff (data m) (data m) = replicate (length (data m)) 0"
    by (rule absdiff_same)
  then have "squares (absdiff (data m) (data m)) = replicate (length (data m)) 0"
    by (simp add: squares_def)
  then have "sse_of m m = 0"
    by (simp add: sse_of_def channel_sum_zeros)
  then have "real (sse_of m m) \<le> 1 / 10 ^ 10"
    by simp
  with assms show ?thesis
    by (simp add: psnr_def)
qed

theorem psnr_identical_is_zero_witness:
  "\<not> mat_empty frame_a \<and> channels frame_a \<le> 4 \<and>
   psnr frame_a frame_a = Inr 0 \<and>
   psnr thumb_a thumb_b = Inr (10 * log 10 195075) \<and>
   (0::real) < 10 * log 10 195075 \<and>
   (0::real) < psnr_threshold Handler_new"
proof -
  have 1: "\<not> mat_empty frame_a" by (simp add: frame_a_def solid_not_empty)
  have 2: "channels frame_a \<le> 4" by (simp add: frame_a_def solid_sel)
  have 3: "psnr thumb_a thumb_b = Inr (10 * log 10 195075)"
    by (simp add: thumb_a_def thumb_b_def psnr_a_b)
  have 4: "(0::real) < 10 * log 10 195075" by simp
  have 5: "(0::real) < psnr_threshold Handler_new" by (simp add: Handler_new_def clear_def)
  from psnr_identical_is_zero[OF 1 2] 1 2 3 4 5 show ?thesis by blast
qed

text \<open>
  Claim C2. The claim: a new handler fed five identical frames of one colour at the
  indices 0 to 4 returns false five times and ends with 4 control thumbnails. The
  program returns false for the first frame only: from the second frame on, the score
  of the frame against the stored identical thumbnail is 0, which is below the
  threshold, and \<open>detect\<close> reports movement. The control map does end with 4 entries.
\<close>

theorem five_identical_frames:
  "map fst (detect_trace cv_sampling five_calls Handler_new) =
     [Inr False, Inr True, Inr True, Inr True, Inr True] \<and>
   length (control (snd (last (detect_trace cv_sampling five_calls Handler_new)))) = 4"
proof -
  have tr: "detect_trace cv_sampling five_calls Handler_new =
      [(Inr False, after_1), (Inr True, after_2), (Inr True, after_3),
       (Inr True, after_4), (Inr True, after_5)]"
    by (rule five)
  have "map fst (detect_trace cv_sampling five_calls Handler_new) =
      [Inr False, Inr True, Inr True, Inr True, Inr True]"
    unfolding tr by simp
  moreover have "control after_5 = [(0, thumb_a), (1, thumb_a), (2, thumb_a), (3, thumb_a)]"
    by (simp add: after_5_def after_4_def)
  then have "length (control (snd (last (detect_trace cv_sampling five_calls Handler_new)))) = 4"
    unfolding tr by simp
  ultimately show ?thesis by blast
qed

theorem five_identical_frames_witness:
  "fst (detect_trace cv_sampling five_calls Handler_new ! 1) = Inr True"
proof -
  let ?tr = "detect_trace cv_sampling five_calls Handler_new"
  from five_identical_frames
  have m: "map fst ?tr = [Inr False, Inr True, Inr True, Inr True, Inr True]" by blast
  then have "length (map fst ?tr) = 5" by simp
  then have "1 < length ?tr" by simp
  then have "fst (?tr ! 1) = map fst ?tr ! 1" by simp
  with m show ?thesis by simp
qed

text \<open>
  Claim C3, as amended. The claim: a call of \<open>detect\<close> that throws has changed nothing
  in the handler. That holds for the empty frame: the handler is the same. A call
  that throws an invalid-argument error later (from \<open>psnr\<close>, for matrices that cannot
  be compared) leaves every member as it was except \<open>thumbnail_ratio\<close>,
  \<open>thumbnail_size\<close>, \<open>mask_enabled\<close>, \<open>movement_detected\<close> and
  \<open>most_recent_psnr_score\<close>: the control map, the two counters,
  \<open>transition_detected\<close>, \<open>frame_index_with_movement\<close>, \<open>movement_last_detected\<close>, the
  mask, the output and the configuration are kept. A call that throws an exception of
  OpenCV still leaves the control map, \<open>next_frame_index\<close>, \<open>next_key_frame\<close>,
  \<open>key_frame_frequency\<close> and \<open>number_of_control_frames\<close> as they were.
\<close>

theorem failed_detect_state:
  assumes "detect cv now fi img h = (Inl e, h')"
  shows "(mat_empty img \<longrightarrow> h' = h) \<and>
         (e = InvalidArgument ''cannot detect using an empty image'' \<longrightarrow> h' = h) \<and>
         control h' = control h \<and> next_frame_index h' = next_frame_index h \<and>
         next_key_frame h' = next_key_frame h \<and>
         key_frame_frequency h' = key_frame_frequency h \<and>
         number_of_control_frames h' = number_of_control_frames h \<and>
         (e \<noteq> CvException \<longrightarrow>
            h' = h\<lparr>thumbnail_ratio := thumbnail_ratio h',
                   thumbnail_size := thumbnail_size h',
                   mask_enabled := mask_enabled h',
                   movement_detected := movement_detected h',
                   most_recent_psnr_score := most_recent_psnr_score h'\<rparr>)"
proof -
  have 1: "h' = h" if "mat_empty img" using assms that by (simp add: detect_empty)
  have 2: "mat_empty img" if "e = InvalidArgument ''cannot detect using an empty image''"
    using detect_nonempty(5)[OF assms] that by auto
  have 3: "h' = h\<lparr>thumbnail_ratio := thumbnail_ratio h',
                   thumbnail_size := thumbnail_size h',
                   mask_enabled := mask_enabled h',
                   movement_detected := movement_detected h',
                   most_recent_psnr_score := most_recent_psnr_score h'\<rparr>"
    if inv: "e \<noteq> CvException"
  proof (cases "mat_empty img")
    case True
    with 1 show ?thesis by simp
  next
    case ne: False
    let ?h1 = "force_mask (thumbnail_setup img h)"
    from assms ne inv obtain th where th: "resize_area cv img (thumbnail_size ?h1) = Some th"
      by (cases "resize_area cv img (thumbnail_size ?h1)") (auto simp: detect_def Let_def)
    obtain e3 h3 where c: "compare_loop cv now fi img th (rev (control h))
         (?h1\<lparr>movement_detected := False\<rparr>) = (e3, h3)"
      by (cases "compare_loop cv now fi img th (rev (control h)) (?h1\<lparr>movement_detected := False\<rparr>)")
    show ?thesis
    proof (cases e3)
      case (Some e')
      with assms ne th c have h': "h' = h3" and e: "e = e'"
        by (simp_all add: detect_def Let_def setup_keeps)
      from compare_loop_invalid_argument[OF c[unfolded Some]] inv e
      have h3: "h3 = ?h1\<lparr>movement_detected := False,
                        most_recent_psnr_score := most_recent_psnr_score h3\<rparr>"
        by simp
      note k3 = compare_loop_keeps[OF c]
      have "movement_detected h3 =
          movement_detected (?h1\<lparr>movement_detected := False,
                        most_recent_psnr_score := most_recent_psnr_score h3\<rparr>)"
        using h3 by (rule arg_cong)
      then have sel: "thumbnail_ratio h' = thumbnail_ratio ?h1"
        "thumbnail_size h' = thumbnail_size ?h1" "mask_enabled h' = mask_enabled ?h1"
        "movement_detected h' = False"
        using k3 h' by simp_all
      from h3 h' have "h' = ?h1\<lparr>movement_detected := False,
                        most_recent_psnr_score := most_recent_psnr_score h'\<rparr>"
        by simp
      then have eq: "h' = h\<lparr>thumbnail_ratio := thumbnail_ratio ?h1,
                   thumbnail_size := thumbnail_size ?h1,
                   mask_enabled := mask_enabled ?h1,
                   movement_detected := False,
                   most_recent_psnr_score := most_recent_psnr_score h'\<rparr>"
        by (subst (asm) setup_shape) simp
      show ?thesis unfolding sel by (rule eq)
    next
      case None
      obtain e5 h5 where a: "annotate cv img
         (h3\<lparr>transition_detected := (movement_detected h \<noteq> movement_detected h3)\<rparr>) = (e5, h5)"
        by (cases "annotate cv img (h3\<lparr>transition_detected := (movement_detected h \<noteq> movement_detected h3)\<rparr>)")
      from assms ne th c None a obtain e'' where "e5 = Some e''" "e = e''"
        by (cases e5) (auto simp: detect_def Let_def setup_keeps)
      with a inv annotate_errors show ?thesis by blast
    qed
  qed
  from 1 2 3 detect_Inl_keeps[OF assms] show ?thesis by blast
qed

theorem failed_detect_state_witness:
  "fst (detect cv_sampling 2 2 frame_big after_2) =
     Inl (InvalidArgument ''src and dst images cannot be compared'') \<and>
   control (snd (detect cv_sampling 2 2 frame_big after_2)) = control after_2 \<and>
   next_frame_index (snd (detect cv_sampling 2 2 frame_big after_2)) = next_frame_index after_2 \<and>
   next_key_frame (snd (detect cv_sampling 2 2 frame_big after_2)) = next_key_frame after_2 \<and>
   transition_detected (snd (detect cv_sampling 2 2 frame_big after_2)) =
     transition_detected after_2 \<and>
   frame_index_with_movement (snd (detect cv_sampling 2 2 frame_big after_2)) =
     frame_index_with_movement after_2 \<and>
   mat_empty Mat \<and>
   detect cv_sampling 0 0 Mat Handler_new =
     (Inl (InvalidArgument ''cannot detect using an empty image''), Handler_new)"
proof -
  let ?h' = "snd (detect cv_sampling 2 2 frame_big after_2)"
  note d = detect_pair[OF step_mismatch_3(1)]
  note a = failed_detect_state[OF d]
  from a have eq: "?h' = after_2\<lparr>thumbnail_ratio := thumbnail_ratio ?h',
                   thumbnail_size := thumbnail_size ?h',
                   mask_enabled := mask_enabled ?h',
                   movement_detected := movement_detected ?h',
                   most_recent_psnr_score := most_recent_psnr_score ?h'\<rparr>"
    by blast
  have t: "transition_detected ?h' = transition_detected after_2"
    by (subst eq) simp
  have f: "frame_index_with_movement ?h' = frame_index_with_movement after_2"
    by (subst eq) simp
  have e: "detect cv_sampling 0 0 Mat Handler_new =
     (Inl (InvalidArgument ''cannot detect using an empty image''), Handler_new)"
    by (simp add: detect_def mat_empty_Mat)
  from a step_mismatch_3(1) e mat_empty_Mat t f show ?thesis by blast
qed

text \<open>
  The claim C3 as stated fails: after two identical frames the handler records
  movement and a thumbnail size of 1 by 1; the third call, on a frame of 40 by 40
  pixels, throws from \<open>psnr\<close> because the new thumbnail has 2 by 2 pixels, and leaves
  \<open>movement_detected\<close> reset and the thumbnail size changed.
\<close>

theorem failed_detect_mutates:
  "detect_trace cv_sampling [(0, 0, frame_a), (1, 1, frame_a)] Handler_new =
     [(Inr False, after_1), (Inr True, after_2)] \<and>
   fst (detect cv_sampling 2 2 frame_big after_2) =
     Inl (InvalidArgument ''src and dst images cannot be compared'') \<and>
   movement_detected after_2 \<and>
   \<not> movement_detected (snd (detect cv_sampling 2 2 frame_big after_2)) \<and>
   thumbnail_size after_2 = \<lparr>width = 1, height = 1\<rparr> \<and>
   thumbnail_size (snd (detect cv_sampling 2 2 frame_big after_2)) = \<lparr>width = 2, height = 2\<rparr> \<and>
   snd (detect cv_sampling 2 2 frame_big after_2) \<noteq> after_2"
proof -
  have 1: "detect_trace cv_sampling [(0, 0, frame_a), (1, 1, frame_a)] Handler_new =
     [(Inr False, after_1), (Inr True, after_2)]"
    by (simp only: detect_trace_Cons detect_trace.simps(1) step_1 step_2 snd_conv)
  have 2: "movement_detected after_2" by (simp add: after_2_def)
  have 3: "thumbnail_size after_2 = \<lparr>width = 1, height = 1\<rparr>"
    by (simp add: after_2_def after_1_def)
  have 4: "snd (detect cv_sampling 2 2 frame_big after_2) \<noteq> after_2"
    using 2 step_mismatch_3(2) by auto
  from 1 2 3 4 step_mismatch_3 show ?thesis by simp
qed





text \<open>
  Claim C5. For every state of the control map (ordered by its keys, as a \<open>std::map\<close>
  is) and every call of \<open>detect\<close> that returns and keeps its thumbnail as a key frame:
  the new control map is the map with the thumbnail assigned at the frame index and
  then its first \<open>n\<close> entries dropped, where \<open>n\<close> is the number of entries above
  \<open>number_of_control_frames\<close>; so it holds that number of entries when the assignment
  exceeded it, never more, and every key dropped is smaller than every key kept.
\<close>

theorem control_eviction:
  assumes "detect cv now fi img h = (Inr b, h')"
    and "is_key_frame fi h"
    and "sorted_wrt (<) (map fst (control h))"
  shows "\<exists>th n. resize_area cv img (thumbnail_size (thumbnail_setup img h)) = Some th \<and>
           n = length (map_assign fi th (control h)) - unat (number_of_control_frames h) \<and>
           control h' = drop n (map_assign fi th (control h)) \<and>
           length (control h') =
             min (length (map_assign fi th (control h))) (unat (number_of_control_frames h)) \<and>
           length (control h') \<le> unat (number_of_control_frames h') \<and>
           sorted_wrt (<) (map fst (control h')) \<and>
           (\<forall>k \<in> set (map fst (take n (map_assign fi th (control h)))).
              \<forall>k' \<in> set (map fst (control h')). k < k')"
proof -
  let ?C = "unat (number_of_control_frames h)"
  from assms(1,2) obtain th where
    th: "resize_area cv img (thumbnail_size (thumbnail_setup img h)) = Some th"
    and c: "control h' = erase_excess ?C (map_assign fi th (control h))"
    and n: "number_of_control_frames h' = number_of_control_frames h"
    using detect_Inr_summary[of cv now fi img h b h'] by auto
  let ?ins = "map_assign fi th (control h)"
  let ?n = "length ?ins - ?C"
  have c': "control h' = drop ?n ?ins" using c by (simp add: erase_excess_drop)
  have s: "sorted_wrt (<) (map fst ?ins)" using assms(3) by (rule map_assign_sorted)
  have "map fst ?ins = map fst (take ?n ?ins) @ map fst (drop ?n ?ins)"
    by (simp flip: map_append)
  with s have s2: "sorted_wrt (<) (map fst (take ?n ?ins) @ map fst (drop ?n ?ins))" by simp
  from s2 have 1: "sorted_wrt (<) (map fst (control h'))"
    unfolding c' sorted_wrt_append by simp
  from s2 have 2: "\<forall>k \<in> set (map fst (take ?n ?ins)). \<forall>k' \<in> set (map fst (control h')). k < k'"
    unfolding c' sorted_wrt_append by blast
  have 3: "length (control h') = min (length ?ins) ?C" unfolding c' by simp
  have 4: "length (control h') \<le> unat (number_of_control_frames h')" unfolding n c' by simp
  from th c' 1 2 3 4 show ?thesis by blast
qed

theorem control_eviction_witness:
  "is_key_frame 13 after_4 \<and> sorted_wrt (<) (map fst (control after_4)) \<and>
   fst (detect cv_sampling 5 13 frame_a after_4) = Inr True \<and>
   map fst (control after_4) = [0, 1, 2, 3] \<and>
   map fst (control (snd (detect cv_sampling 5 13 frame_a after_4))) = [1, 2, 3, 13] \<and>
   length (control (snd (detect cv_sampling 5 13 frame_a after_4)))
     \<le> unat (number_of_control_frames (snd (detect cv_sampling 5 13 frame_a after_4))) \<and>
   sorted_wrt (<) (map fst (control (snd (detect cv_sampling 5 13 frame_a after_4))))"
proof -
  have 1: "is_key_frame 13 after_4"
    by (simp add: is_key_frame_def after_4_def after_3_def after_2_def after_1_def)
  have 2: "sorted_wrt (<) (map fst (control after_4))" by (simp add: after_4_def)
  have 3: "map fst (control after_4) = [0, 1, 2, 3]" by (simp add: after_4_def)
  note d = detect_pair[OF step_13(1)]
  from control_eviction[OF d 1 2]
  have "length (control (snd (detect cv_sampling 5 13 frame_a after_4)))
     \<le> unat (number_of_control_frames (snd (detect cv_sampling 5 13 frame_a after_4))) \<and>
   sorted_wrt (<) (map fst (control (snd (detect cv_sampling 5 13 frame_a after_4))))"
    by blast
  with 1 2 3 step_13 show ?thesis by simp
qed

text \<open>
  Claim C6. In a sequence of calls that all return, starting on a handler in which no
  movement is recorded (as \<open>clear\<close> leaves it), \<open>transition_detected\<close> after a call is
  true exactly when the boolean the call returned differs from the boolean the call
  before it returned, and for the first call from \<open>False\<close>.
\<close>

theorem transition_tracks_results:
  assumes "\<not> movement_detected h"
    and "\<forall>j \<le> i. returned (detect_trace cv calls h ! j)" and "i < length calls"
  shows "transition_detected (snd (detect_trace cv calls h ! i)) =
           (result (detect_trace cv calls h ! i) \<noteq>
            (if i = 0 then False else result (detect_trace cv calls h ! (i - 1))))"
  using trace_transition[OF assms(2,3)] assms(1) by simp

theorem transition_tracks_results_witness:
  "\<not> movement_detected Handler_new \<and>
   list_all returned (detect_trace cv_sampling five_calls Handler_new) \<and>
   \<not> result (detect_trace cv_sampling five_calls Handler_new ! 0) \<and>
   result (detect_trace cv_sampling five_calls Handler_new ! 1) \<and>
   result (detect_trace cv_sampling five_calls Handler_new ! 2) \<and>
   transition_detected (snd (detect_trace cv_sampling five_calls Handler_new ! 1)) \<and>
   \<not> transition_detected (snd (detect_trace cv_sampling five_calls Handler_new ! 2))"
proof -
  let ?tr = "detect_trace cv_sampling five_calls Handler_new"
  have 1: "\<not> movement_detected Handler_new" by (simp add: Handler_new_def clear_def)
  have r: "list_all returned ?tr" by (simp add: five)
  have a1: "\<forall>j \<le> 1. returned (?tr ! j)" by (rule all_le_nth) (simp_all add: five)
  have a2: "\<forall>j \<le> 2. returned (?tr ! j)" by (rule all_le_nth) (simp_all add: five)
  have l: "1 < length five_calls" "2 < length five_calls" by (simp_all add: five_calls_def)
  have res: "\<not> result (?tr ! 0)" "result (?tr ! 1)" "result (?tr ! 2)" by (simp_all add: five)
  from transition_tracks_results[OF 1 a1 l(1)] res
  have t1: "transition_detected (snd (?tr ! 1))" by simp
  from transition_tracks_results[OF 1 a2 l(2)] res
  have t2: "\<not> transition_detected (snd (?tr ! 2))" by simp
  from 1 r res t1 t2 show ?thesis by blast
qed

text \<open>
  Claim C7. When a call of \<open>detect\<close> returns false on a handler that recorded movement,
  with the mask enabled (directly, or through the contours or the bounding box), the
  mask after the call is the matrix of one channel, of the rows and columns of the
  frame, with every sample 0.
\<close>

theorem mask_blank_when_movement_ends:
  assumes "detect cv now fi img h = (Inr False, h')"
    and "movement_detected h"
    and "mask_enabled h \<or> contours_enabled h \<or> bbox_enabled h"
  shows "mask_mat h' = Mat_zeros_8UC1 (mat_size img) \<and>
         channels (mask_mat h') = 1 \<and> rows (mask_mat h') = rows img \<and>
         cols (mask_mat h') = cols img \<and> length (data (mask_mat h')) = total img \<and>
         (\<forall>x \<in> set (data (mask_mat h')). x = 0)"
proof -
  from assms(1) obtain th h3 h5 where
    c: "compare_loop cv now fi img th (rev (control h))
       ((force_mask (thumbnail_setup img h))\<lparr>movement_detected := False\<rparr>) = (None, h3)" and
    a: "annotate cv img (h3\<lparr>transition_detected := (movement_detected h \<noteq> movement_detected h3)\<rparr>)
       = (None, h5)" and
    h': "h' = (retain fi th h5)\<lparr>next_frame_index := fi + 1\<rparr>" and
    b: "False = movement_detected h5"
    by (rule detect_InrE)
  note k3 = compare_loop_keeps[OF c]
  note k5 = annotate_keeps[OF a]
  from b k5 have m3: "\<not> movement_detected h3" by simp
  have "mask_mat h5 = Mat_zeros_8UC1 (mat_size img)"
    using a
  proof (rule annotate_blank_mask)
    show "mask_enabled (h3\<lparr>transition_detected := (movement_detected h \<noteq> movement_detected h3)\<rparr>)"
      using k3 assms(3) by (simp add: setup_keeps)
    show "transition_detected (h3\<lparr>transition_detected := (movement_detected h \<noteq> movement_detected h3)\<rparr>)"
      using m3 assms(2) by simp
    show "\<not> movement_detected (h3\<lparr>transition_detected := (movement_detected h \<noteq> movement_detected h3)\<rparr>)"
      using m3 by simp
  qed
  with h' have "mask_mat h' = Mat_zeros_8UC1 (mat_size img)" by (simp add: retain_keeps)
  then show ?thesis
    by (simp add: Mat_zeros_8UC1_def mat_size_def total_def mult.commute)
qed


theorem mask_blank_when_movement_ends_witness:
  "movement_detected (after_2\<lparr>mask_enabled := True\<rparr>) \<and>
   mask_enabled (after_2\<lparr>mask_enabled := True\<rparr>) \<and>
   fst (detect cv_sampling 2 2 frame_b (after_2\<lparr>mask_enabled := True\<rparr>)) = Inr False \<and>
   mask_mat (snd (detect cv_sampling 2 2 frame_b (after_2\<lparr>mask_enabled := True\<rparr>))) =
     \<lparr>rows = 20, cols = 20, channels = 1, data = replicate 400 0\<rparr>"
proof -
  let ?h = "after_2\<lparr>mask_enabled := True\<rparr>"
  have 1: "movement_detected ?h" by (simp add: after_2_def)
  have 2: "mask_enabled ?h \<or> contours_enabled ?h \<or> bbox_enabled ?h" by simp
  note d = detect_pair[OF step_quiet(1)]
  from mask_blank_when_movement_ends[OF d 1 2]
  have "mask_mat (snd (detect cv_sampling 2 2 frame_b ?h)) = Mat_zeros_8UC1 (mat_size frame_b)"
    by blast
  then have "mask_mat (snd (detect cv_sampling 2 2 frame_b ?h)) =
     \<lparr>rows = 20, cols = 20, channels = 1, data = replicate 400 0\<rparr>"
    by (simp add: Mat_zeros_8UC1_def mat_size_def frame_b_def solid_sel)
  with 1 step_quiet(1) show ?thesis by simp
qed




text \<open>
  Claim C9. A call of \<open>detect\<close> on a frame that is not empty, made while
  \<open>contours_enabled\<close> or \<open>bbox_enabled\<close> is set, leaves \<open>mask_enabled\<close> set, whether the
  call returns or throws after the check of the frame; \<open>mask_enabled\<close> then stays set
  through every later call, whatever the caller assigns to \<open>contours_enabled\<close> and
  \<open>bbox_enabled\<close> before each of them; and \<open>clear\<close> resets it. (A call on an empty frame
  throws at its first statement and writes nothing.)
\<close>

theorem mask_enabled_forced_and_kept:
  assumes "\<not> mat_empty img" and "contours_enabled h \<or> bbox_enabled h"
  shows "mask_enabled (snd (detect cv now fi img h)) \<and>
         (\<forall>h' \<in> set (flag_trace cv calls (snd (detect cv now fi img h))). mask_enabled h') \<and>
         \<not> mask_enabled (clear h'')"
proof -
  have 1: "mask_enabled (snd (detect cv now fi img h))"
    using detect_nonempty(1)[OF surjective_pairing assms(1), of cv now fi h] assms(2) by auto
  from flag_trace_mask_enabled[OF 1] 1 show ?thesis by (simp add: clear_def)
qed

theorem mask_enabled_forced_and_kept_witness:
  "\<not> mat_empty frame_a \<and> contours_enabled (Handler_new\<lparr>contours_enabled := True\<rparr>) \<and>
   \<not> mask_enabled (Handler_new\<lparr>contours_enabled := True\<rparr>) \<and>
   fst (detect cv_sampling 0 0 frame_a (Handler_new\<lparr>contours_enabled := True\<rparr>)) = Inr False \<and>
   mask_enabled (snd (detect cv_sampling 0 0 frame_a (Handler_new\<lparr>contours_enabled := True\<rparr>))) \<and>
   length (flag_trace cv_sampling [(False, False, 1, 1, frame_a)]
     (snd (detect cv_sampling 0 0 frame_a (Handler_new\<lparr>contours_enabled := True\<rparr>)))) = 1 \<and>
   list_all mask_enabled (flag_trace cv_sampling [(False, False, 1, 1, frame_a)]
     (snd (detect cv_sampling 0 0 frame_a (Handler_new\<lparr>contours_enabled := True\<rparr>)))) \<and>
   \<not> mask_enabled (clear (snd (detect cv_sampling 0 0 frame_a
                                  (Handler_new\<lparr>contours_enabled := True\<rparr>))))"
proof -
  let ?h = "Handler_new\<lparr>contours_enabled := True\<rparr>"
  let ?calls = "[(False, False, 1::nat, 1::size_t, frame_a)]"
  have 1: "\<not> mat_empty frame_a" by (simp add: frame_a_def solid_not_empty)
  have 2: "contours_enabled ?h \<or> bbox_enabled ?h" by simp
  have 3: "\<not> mask_enabled ?h" by (simp add: Handler_new_def clear_def)
  have 4: "length (flag_trace cv_sampling ?calls (snd (detect cv_sampling 0 0 frame_a ?h))) = 1"
    by (simp add: Let_def)
  from mask_enabled_forced_and_kept[OF 1 2, of cv_sampling 0 0 ?calls
      "snd (detect cv_sampling 0 0 frame_a ?h)"]
  have "mask_enabled (snd (detect cv_sampling 0 0 frame_a ?h)) \<and>
        list_all mask_enabled (flag_trace cv_sampling ?calls (snd (detect cv_sampling 0 0 frame_a ?h))) \<and>
        \<not> mask_enabled (clear (snd (detect cv_sampling 0 0 frame_a ?h)))"
    unfolding list_all_iff by blast
  with 1 3 4 step_contours show ?thesis by simp
qed

text \<open>
  Claim C10, as amended. With a resize that returns matrices of the size asked for and
  of the channels of its source, as \<open>cv::resize\<close> does: while the stored thumbnail size has an area above 1 and
  every control thumbnail has that size and the channels of the frame, a call of
  \<open>detect\<close> never throws the error of \<open>psnr\<close> for matrices that cannot be compared,
  whatever the width and height of the frame; it leaves the thumbnail size as it is,
  and the control thumbnails still have that size after it.
\<close>

theorem no_mismatch_with_cached_size:
  assumes contract: "\<And>src dsize t. resize_area cv src dsize = Some t \<Longrightarrow>
                        mat_size t = dsize \<and> channels t = channels src"
    and big: "1 < area (thumbnail_size h)"
    and inv: "\<forall>v \<in> set (map snd (control h)).
                mat_size v = thumbnail_size h \<and> channels v = channels img"
    and d: "detect cv now fi img h = (r, h')"
  shows "r \<noteq> Inl (InvalidArgument ''src and dst images cannot be compared'') \<and>
         thumbnail_size h' = thumbnail_size h \<and>
         (\<forall>v \<in> set (map snd (control h')).
            mat_size v = thumbnail_size h' \<and> channels v = channels img)"
proof (cases "mat_empty img")
  case True
  with d inv show ?thesis by (auto simp: detect_empty)
next
  case False
  note ne = detect_nonempty[OF d False]
  have su: "thumbnail_setup img h = h" using big by (simp add: thumbnail_setup_def)
  have ts: "thumbnail_size h' = thumbnail_size h" using ne(2) su by simp
  have 1: "r \<noteq> Inl (InvalidArgument ''src and dst images cannot be compared'')"
  proof
    assume "r = Inl (InvalidArgument ''src and dst images cannot be compared'')"
    from ne(6)[OF this] su obtain th v where
      th: "resize_area cv img (thumbnail_size h) = Some th" and
      v: "v \<in> set (map snd (control h))" and
      p: "psnr v th = Inl (InvalidArgument ''src and dst images cannot be compared'')"
      by auto
    from contract[OF th] inv v have "mat_size v = mat_size th" "channels v = channels th"
      by auto
    then have "mat_type v = mat_type th" "cols v = cols th" "rows v = rows th"
      by (simp_all add: mat_type_def mat_size_def)
    with psnr_mismatch[OF p] show False by simp
  qed
  have 2: "\<forall>v \<in> set (map snd (control h')).
            mat_size v = thumbnail_size h' \<and> channels v = channels img"
  proof (cases r)
    case (Inl e)
    with detect_Inl_keeps[OF d[unfolded Inl]] inv ts show ?thesis by simp
  next
    case (Inr b)
    from detect_Inr_summary[OF d[unfolded Inr]] su obtain th where
      th: "resize_area cv img (thumbnail_size h) = Some th" and
      c: "control h' = (if is_key_frame fi h
                         then erase_excess (unat (number_of_control_frames h))
                                (map_assign fi th (control h))
                         else control h)"
      by auto
    have "set (control h') \<subseteq> insert (fi, th) (set (control h))"
      using c map_assign_set[of fi th "control h"]
        set_drop_subset[of "length (map_assign fi th (control h)) - unat (number_of_control_frames h)"
          "map_assign fi th (control h)"]
      by (auto simp: erase_excess_drop split: if_splits)
    then have sub: "set (map snd (control h')) \<subseteq> insert th (set (map snd (control h)))"
      by auto
    show ?thesis
    proof (intro ballI)
      fix v assume "v \<in> set (map snd (control h'))"
      with sub have "v = th \<or> v \<in> set (map snd (control h))" by blast
      then show "mat_size v = thumbnail_size h' \<and> channels v = channels img"
      proof
        assume "v = th"
        with contract[OF th] ts show ?thesis by simp
      next
        assume "v \<in> set (map snd (control h))"
        with inv ts show ?thesis by auto
      qed
    qed
  qed
  from 1 2 ts show ?thesis by blast
qed


theorem no_mismatch_with_cached_size_witness:
  "detect cv_sampling 0 0 frame_big Handler_new = (Inr False, big_1) \<and>
   1 < area (thumbnail_size big_1) \<and>
   mat_size frame_wide = \<lparr>width = 80, height = 40\<rparr> \<and>
   mat_size frame_big = \<lparr>width = 40, height = 40\<rparr> \<and>
   fst (detect cv_sampling 1 1 frame_wide big_1) = Inr True \<and>
   fst (detect cv_sampling 1 1 frame_wide big_1) \<noteq>
     Inl (InvalidArgument ''src and dst images cannot be compared'') \<and>
   thumbnail_size (snd (detect cv_sampling 1 1 frame_wide big_1)) = thumbnail_size big_1"
proof -
  have 1: "1 < area (thumbnail_size big_1)" by (simp add: big_1_def area_def)
  have 2: "\<forall>v \<in> set (map snd (control big_1)).
             mat_size v = thumbnail_size big_1 \<and> channels v = channels frame_wide"
    by (simp add: big_1_def thumb_big_def frame_wide_def mat_size_def solid_sel)
  have 3: "\<And>src dsize t. resize_area cv_sampling src dsize = Some t \<Longrightarrow>
             mat_size t = dsize \<and> channels t = channels src"
    by (simp add: cv_sampling_def sample_resize_contract)
  have 4: "mat_size frame_wide = \<lparr>width = 80, height = 40\<rparr>"
    "mat_size frame_big = \<lparr>width = 40, height = 40\<rparr>"
    by (simp_all add: mat_size_def frame_wide_def frame_big_def solid_sel)
  note d = detect_pair[OF step_big_2(1)]
  from no_mismatch_with_cached_size[OF 3 1 2 d] step_big_1 1 4 step_big_2(1)
  show ?thesis by simp
qed

text \<open>
  The claim C10 as stated fails: the thumbnail size is computed again from every frame
  while its area is at most 1, which is the case for a thumbnail of 1 by 1 pixel. After
  a first frame of 20 by 20 pixels, a frame of 40 by 40 pixels of the same type gets a
  thumbnail of 2 by 2 pixels, and \<open>psnr\<close> throws its error for matrices that cannot be
  compared.
\<close>

theorem mismatch_reached_from_detect:
  "detect cv_sampling 0 0 frame_a Handler_new = (Inr False, after_1) \<and>
   \<not> mat_empty frame_big \<and> mat_type frame_big = mat_type frame_a \<and>
   thumbnail_size after_1 = \<lparr>width = 1, height = 1\<rparr> \<and>
   fst (detect cv_sampling 1 1 frame_big after_1) =
     Inl (InvalidArgument ''src and dst images cannot be compared'')"
proof -
  have 1: "\<not> mat_empty frame_big" by (simp add: frame_big_def solid_not_empty)
  have 2: "mat_type frame_big = mat_type frame_a"
    by (simp add: mat_type_def frame_big_def frame_a_def solid_sel)
  have 3: "thumbnail_size after_1 = \<lparr>width = 1, height = 1\<rparr>" by (simp add: after_1_def)
  from 1 2 3 step_1 step_mismatch_2 show ?thesis by simp
qed


end
